theory Spec2Isabelle
  imports Complex_Main
begin

section \<open>The history reducer of the standalone board\<close>

text \<open>
  The standalone drawing board keeps its scene in a React reducer:
  \<^verbatim>\<open>interface AppState { shapes: Shape[]; history: Shape[][]; historyIndex: number; }\<close>
  The reducer never looks inside a shape, so it is modelled for any element type \<open>'a\<close>;
  the component below instantiates it with object references.  \<open>historyIndex\<close> only
  ever holds a non-negative integer (it starts at 0, is decremented under the guard
  \<open>historyIndex > 0\<close> and is otherwise set to a length minus one of a non-empty array),
  so it is a \<open>nat\<close>; the comparison of REDO is written over \<open>int\<close> because
  \<open>history.length - 1\<close> is \<open>-1\<close> for an empty array.
\<close>

record 'a AppState =
  shapes :: "'a list"
  history :: "'a list list"
  historyIndex :: nat

datatype 'a AppAction =
    ADD_SHAPE 'a
  | UPDATE_SHAPES "'a list"
  | SET_SHAPES_NO_HISTORY "'a list"
  | UNDO
  | REDO
  | CLEAR

definition initialState :: "'a AppState" where
  "initialState = \<lparr>shapes = [], history = [[]], historyIndex = 0\<rparr>"

text \<open>
  An array read \<open>xs[i]\<close>: JavaScript yields \<open>undefined\<close> out of range, here \<open>None\<close>.
\<close>

definition lookup :: "'a list \<Rightarrow> nat \<Rightarrow> 'a option" where
  "lookup xs i = (if i < length xs then Some (xs ! i) else None)"

text \<open>
  The reducer.  \<open>slice(0, historyIndex + 1)\<close> is \<open>take (historyIndex + 1)\<close>.  In UNDO
  and REDO the new scene is read from the history array; were that read out of range,
  the returned object would carry \<open>shapes: undefined\<close>, which is no \<open>AppState\<close> (the
  next render fails on \<open>shapes.forEach\<close>): that outcome is \<open>None\<close>.
\<close>

fun reducer :: "'a AppState \<Rightarrow> 'a AppAction \<Rightarrow> 'a AppState option" where
  "reducer state (ADD_SHAPE payload) =
     (let newShapes = shapes state @ [payload];
          newHistory = take (historyIndex state + 1) (history state) @ [newShapes]
      in Some (state\<lparr>shapes := newShapes, history := newHistory,
                       historyIndex := length newHistory - 1\<rparr>))"
| "reducer state (UPDATE_SHAPES payload) =
     (let newShapes = payload;
          newHistory = take (historyIndex state + 1) (history state) @ [newShapes]
      in Some (state\<lparr>shapes := newShapes, history := newHistory,
                       historyIndex := length newHistory - 1\<rparr>))"
| "reducer state (SET_SHAPES_NO_HISTORY payload) = Some (state\<lparr>shapes := payload\<rparr>)"
| "reducer state UNDO =
     (if historyIndex state > 0 then
        (let newIndex = historyIndex state - 1
         in case lookup (history state) newIndex of
              None \<Rightarrow> None
            | Some scene \<Rightarrow> Some (state\<lparr>shapes := scene, historyIndex := newIndex\<rparr>))
      else Some state)"
| "reducer state REDO =
     (if int (historyIndex state) < int (length (history state)) - 1 then
        (let newIndex = historyIndex state + 1
         in case lookup (history state) newIndex of
              None \<Rightarrow> None
            | Some scene \<Rightarrow> Some (state\<lparr>shapes := scene, historyIndex := newIndex\<rparr>))
      else Some state)"
| "reducer state CLEAR = Some (state\<lparr>shapes := [], history := [[]], historyIndex := 0\<rparr>)"

text \<open>
  React applies the dispatched actions one after the other, each to the state the
  previous one returned.
\<close>

fun dispatchAll :: "'a AppState \<Rightarrow> 'a AppAction list \<Rightarrow> 'a AppState option" where
  "dispatchAll state [] = Some state"
| "dispatchAll state (a # as) =
     (case reducer state a of None \<Rightarrow> None | Some state' \<Rightarrow> dispatchAll state' as)"

text \<open>The snapshots that \<open>n\<close> successive additions leave behind: every prefix of the scene.\<close>

definition prefixes :: "'a list \<Rightarrow> 'a list list" where
  "prefixes ps = map (\<lambda>k. take k ps) [0..<Suc (length ps)]"

section \<open>Shapes and geometry of the standalone board\<close>

text \<open>
  JavaScript numbers are modelled as \<open>real\<close>: coordinates, sizes and zoom factors are
  taken as exact, without the rounding of IEEE doubles and without NaN or infinities
  (no division by zero occurs: the zoom stays above 0.1).  The fields \<open>x\<close>, \<open>y\<close>,
  \<open>id\<close> of the source are prefixed, since a record field is a global constant here.
\<close>

datatype Tool = SELECT | PAN | FREEHAND | RECT | CIRCLE | ARROW | TEXT | ERASER

record Point =
  p_x :: real
  p_y :: real

record BBox =
  bb_x :: real
  bb_y :: real
  bb_width :: real
  bb_height :: real

text \<open>
  \<open>Shape\<close> is a union discriminated by \<open>type\<close>; the constructor is the tag and carries
  the fields of that variant: points for \<open>freehand\<close> and \<open>eraser\<close>; \<open>x y width height\<close>
  for \<open>rect\<close> and \<open>circle\<close>; \<open>x1 y1 x2 y2\<close> for \<open>arrow\<close>; \<open>x y text\<close> for \<open>text\<close>.
\<close>

datatype Geometry =
    Freehand "Point list"
  | Eraser "Point list"
  | Rect real real real real
  | Circle real real real real
  | Arrow real real real real
  | Text real real string

record Shape =
  shape_id :: string
  shape_color :: string
  shape_stroke :: real
  shape_fontSize :: real
  bbox :: "BBox option"
  geom :: Geometry

fun geomType :: "Geometry \<Rightarrow> Tool" where
  "geomType (Freehand pts) = FREEHAND"
| "geomType (Eraser pts) = ERASER"
| "geomType (Rect x y w h) = RECT"
| "geomType (Circle x y w h) = CIRCLE"
| "geomType (Arrow x1 y1 x2 y2) = ARROW"
| "geomType (Text x y t) = TEXT"

definition shapeType :: "Shape \<Rightarrow> Tool" where
  "shapeType shape = geomType (geom shape)"

text \<open>
  The text measurement of the canvas context: \<open>ctx.measureText(text)\<close> under the font
  \<open>`${fontSize}px sans-serif`\<close>.  It belongs to the browser and is a parameter.
\<close>

record TextMetrics =
  tm_width :: real
  actualBoundingBoxAscent :: real
  actualBoundingBoxDescent :: real

type_synonym Ctx = "real \<Rightarrow> string \<Rightarrow> TextMetrics"

definition isPointInShape :: "real \<Rightarrow> real \<Rightarrow> Shape \<Rightarrow> bool" where
  "isPointInShape px py shape =
     (case bbox shape of
        None \<Rightarrow> False
      | Some b \<Rightarrow> px \<ge> bb_x b \<and> px \<le> bb_x b + bb_width b \<and>
                  py \<ge> bb_y b \<and> py \<le> bb_y b + bb_height b)"

text \<open>\<open>Math.min(...vs)\<close> and \<open>Math.max(...vs)\<close> of a non-empty array \<open>v # vs\<close>.\<close>

definition Math_min :: "real \<Rightarrow> real list \<Rightarrow> real" where
  "Math_min v vs = fold min vs v"

definition Math_max :: "real \<Rightarrow> real list \<Rightarrow> real" where
  "Math_max v vs = fold max vs v"

definition pathBBox :: "Point list \<Rightarrow> real \<Rightarrow> BBox" where
  "pathBBox points stroke =
     (case points of
        [] \<Rightarrow> \<lparr>bb_x = 0, bb_y = 0, bb_width = 0, bb_height = 0\<rparr>
      | p # ps \<Rightarrow>
          (let minX = Math_min (p_x p) (map p_x ps);
               minY = Math_min (p_y p) (map p_y ps);
               maxX = Math_max (p_x p) (map p_x ps);
               maxY = Math_max (p_y p) (map p_y ps)
           in \<lparr>bb_x = minX - stroke / 2, bb_y = minY - stroke / 2,
               bb_width = (maxX - minX) + stroke, bb_height = (maxY - minY) + stroke\<rparr>))"

definition updateBoundingBox :: "Shape \<Rightarrow> Ctx \<Rightarrow> Shape" where
  "updateBoundingBox shape ctx =
     shape\<lparr>bbox := Some
       (case geom shape of
          Freehand points \<Rightarrow> pathBBox points (shape_stroke shape)
        | Eraser points \<Rightarrow> pathBBox points (shape_stroke shape)
        | Rect x y w h \<Rightarrow> \<lparr>bb_x = x, bb_y = y, bb_width = w, bb_height = h\<rparr>
        | Circle x y w h \<Rightarrow> \<lparr>bb_x = x, bb_y = y, bb_width = w, bb_height = h\<rparr>
        | Arrow x1 y1 x2 y2 \<Rightarrow>
            \<lparr>bb_x = min x1 x2, bb_y = min y1 y2,
             bb_width = \<bar>x1 - x2\<bar>, bb_height = \<bar>y1 - y2\<bar>\<rparr>
        | Text x y t \<Rightarrow>
            (let metrics = ctx (shape_fontSize shape) t
             in \<lparr>bb_x = x, bb_y = y - actualBoundingBoxAscent metrics,
                 bb_width = tm_width metrics,
                 bb_height = actualBoundingBoxAscent metrics
                             + actualBoundingBoxDescent metrics\<rparr>))\<rparr>"

text \<open>
  \<open>String.prototype.trim\<close> removes white space and line terminators at both ends.  A
  \<open>char\<close> is read as a code unit below 256; the white space there is TAB, LF, VT, FF,
  CR, SP and NBSP.
\<close>

definition isWhiteSpace :: "char \<Rightarrow> bool" where
  "isWhiteSpace c = (of_char c \<in> {9, 10, 11, 12, 13, 32, 160 :: nat})"

definition trim :: "string \<Rightarrow> string" where
  "trim s = rev (dropWhile isWhiteSpace (rev (dropWhile isWhiteSpace s)))"

text \<open>\<open>xs.filter((x, index) => P x index)\<close>.\<close>

definition filterIndexed :: "('a \<Rightarrow> nat \<Rightarrow> bool) \<Rightarrow> 'a list \<Rightarrow> 'a list" where
  "filterIndexed P xs = map fst (filter (\<lambda>(x, i). P x i) (zip xs [0..<length xs]))"

section \<open>The standalone board component\<close>

text \<open>
  The handlers mutate shape objects in place (\<open>lastShape.width = ...\<close>,
  \<open>shape.bbox = ...\<close>), and the same objects are shared by \<open>state.shapes\<close> and by
  every snapshot of \<open>state.history\<close> that contains them: arrays are copied
  (\<open>[...shapes]\<close>), objects are not.  So the scene and the snapshots hold references,
  and the objects live in a store: the object of reference \<open>r\<close> is \<open>heap ! r\<close>, and a
  new object takes the next free address \<open>length heap\<close>.  The remaining fields are
  the \<open>useState\<close> cells of the component.
\<close>

type_synonym ref = nat

datatype Action = none | drawing | panning | dragging

record ViewState =
  view_x :: real
  view_y :: real
  view_zoom :: real

record Whiteboard =
  heap :: "Shape list"
  state :: "ref AppState"
  tool :: Tool
  color :: string
  stroke :: real
  eraserStroke :: real
  fontSize :: real
  isDrawing :: bool
  startPoint :: "Point option"
  selectedIndices :: "nat list"
  action :: Action
  editingShapeIndex :: "nat option"
  view :: ViewState

definition initialWhiteboard :: Whiteboard where
  "initialWhiteboard =
     \<lparr>heap = [], state = initialState, tool = SELECT, color = ''#1e1e1e'', stroke = 4,
      eraserStroke = 12, fontSize = 24, isDrawing = False, startPoint = None,
      selectedIndices = [], action = none, editingShapeIndex = None,
      view = \<lparr>view_x = 0, view_y = 0, view_zoom = 1\<rparr>\<rparr>"

text \<open>
  What a handler reads from a pointer or wheel event; \<open>rectLeft\<close> and \<open>rectTop\<close> are
  \<open>canvas.getBoundingClientRect()\<close>.
\<close>

record CanvasEvent =
  clientX :: real
  clientY :: real
  rectLeft :: real
  rectTop :: real
  button :: int
  movementX :: real
  movementY :: real
  deltaY :: real

definition getPointerWorldPos :: "CanvasEvent \<Rightarrow> ViewState \<Rightarrow> Point" where
  "getPointerWorldPos e v =
     \<lparr>p_x = (clientX e - rectLeft e - view_x v) / view_zoom v,
      p_y = (clientY e - rectTop e - view_y v) / view_zoom v\<rparr>"

text \<open>
  \<open>dispatch\<close> runs the reducer on the component's state.  A handler result \<open>None\<close>
  means that the handler (or the render after it) throws a TypeError on an
  \<open>undefined\<close> value.
\<close>

definition dispatch :: "ref AppAction \<Rightarrow> Whiteboard \<Rightarrow> Whiteboard option" where
  "dispatch a st = map_option (\<lambda>s. st\<lparr>state := s\<rparr>) (reducer (state st) a)"

definition isBlankText :: "Shape \<Rightarrow> bool" where
  \<comment> \<open>\<open>shape.type === 'text' && shape.text.trim() === ''\<close>\<close>
  "isBlankText shape = (case geom shape of Text x y t \<Rightarrow> trim t = [] | _ \<Rightarrow> False)"

text \<open>
  \<open>finishEditingText\<close> runs on blur of the text area, on Escape, on a pointer-down
  while editing and before Clear All.  Its canvas context may be missing
  (\<open>if (!ctx) return\<close>): the argument is an option.  \<open>currentShapes[editingShapeIndex]\<close>
  out of range is \<open>undefined\<close>, and \<open>shape.type\<close> then throws.
\<close>

definition finishEditingText :: "Ctx option \<Rightarrow> Whiteboard \<Rightarrow> Whiteboard option" where
  "finishEditingText ctxo st =
     (case editingShapeIndex st of
        None \<Rightarrow> Some st
      | Some i \<Rightarrow>
         (case ctxo of
            None \<Rightarrow> Some st
          | Some ctx \<Rightarrow>
             (let currentShapes = shapes (state st)
              in case lookup currentShapes i of
                   None \<Rightarrow> None
                 | Some r \<Rightarrow>
                    (let shape = heap st ! r
                     in map_option (\<lambda>s. s\<lparr>editingShapeIndex := None\<rparr>)
                          (if isBlankText shape then
                             (let filteredShapes =
                                    filterIndexed (\<lambda>_ index. index \<noteq> i) currentShapes
                              in dispatch (UPDATE_SHAPES filteredShapes) st)
                           else
                             dispatch (UPDATE_SHAPES currentShapes)
                               (st\<lparr>heap := (heap st)[r := updateBoundingBox shape ctx]\<rparr>))))))"

text \<open>
  The \<open>onChange\<close> of the text area.  The text area exists only while
  \<open>shapes[editingShapeIndex]?.type === 'text'\<close>; otherwise no such event arrives.
\<close>

definition setText :: "string \<Rightarrow> Shape \<Rightarrow> Shape" where
  "setText v shape = (case geom shape of Text x y t \<Rightarrow> shape\<lparr>geom := Text x y v\<rparr> | _ \<Rightarrow> shape)"

definition onChangeText :: "Ctx \<Rightarrow> string \<Rightarrow> Whiteboard \<Rightarrow> Whiteboard option" where
  "onChangeText ctx v st =
     (case editingShapeIndex st of
        None \<Rightarrow> Some st
      | Some i \<Rightarrow>
         (let currentShapes = shapes (state st)
          in case lookup currentShapes i of
               None \<Rightarrow> Some st
             | Some r \<Rightarrow>
                if shapeType (heap st ! r) = TEXT then
                  dispatch (SET_SHAPES_NO_HISTORY currentShapes)
                    (st\<lparr>heap := (heap st)[r := updateBoundingBox (setText v (heap st ! r)) ctx]\<rparr>)
                else Some st))"

text \<open>The shape a drawing tool creates on pointer-down (\<open>switch (tool)\<close>, l. 391-408).\<close>

definition newShapeFor :: "Whiteboard \<Rightarrow> string \<Rightarrow> Point \<Rightarrow> Shape option" where
  "newShapeFor st ident pos =
     (case tool st of
        FREEHAND \<Rightarrow> Some \<lparr>shape_id = ident, shape_color = color st, shape_stroke = stroke st,
                          shape_fontSize = fontSize st, bbox = None, geom = Freehand [pos]\<rparr>
      | ERASER \<Rightarrow> Some \<lparr>shape_id = ident, shape_color = ''#fff'', shape_stroke = eraserStroke st,
                        shape_fontSize = fontSize st, bbox = None, geom = Eraser [pos]\<rparr>
      | RECT \<Rightarrow> Some \<lparr>shape_id = ident, shape_color = color st, shape_stroke = stroke st,
                      shape_fontSize = fontSize st, bbox = None,
                      geom = Rect (p_x pos) (p_y pos) 0 0\<rparr>
      | CIRCLE \<Rightarrow> Some \<lparr>shape_id = ident, shape_color = color st, shape_stroke = stroke st,
                        shape_fontSize = fontSize st, bbox = None,
                        geom = Circle (p_x pos) (p_y pos) 0 0\<rparr>
      | ARROW \<Rightarrow> Some \<lparr>shape_id = ident, shape_color = color st, shape_stroke = stroke st,
                       shape_fontSize = fontSize st, bbox = None,
                       geom = Arrow (p_x pos) (p_y pos) (p_x pos) (p_y pos)\<rparr>
      | _ \<Rightarrow> None)"

text \<open>
  Creating an object and dispatching ADD_SHAPE with it: the object is stored at the
  next free address.
\<close>

definition addNewShape :: "Shape \<Rightarrow> Whiteboard \<Rightarrow> Whiteboard option" where
  "addNewShape newShape st =
     dispatch (ADD_SHAPE (length (heap st))) (st\<lparr>heap := heap st @ [newShape]\<rparr>)"

text \<open>
  \<open>handlePointerDown\<close>; \<open>now\<close> is \<open>Date.now().toString()\<close>.  The select tool scans
  the scene from the top (\<open>for (let i = shapes.length - 1; i >= 0; i--)\<close>).
\<close>

definition handlePointerDown :: "Ctx \<Rightarrow> string \<Rightarrow> CanvasEvent \<Rightarrow> Whiteboard \<Rightarrow> Whiteboard option" where
  "handlePointerDown ctx now e st =
     (if editingShapeIndex st \<noteq> None then finishEditingText (Some ctx) st
      else
        (let pos = getPointerWorldPos e (view st);
             st1 = st\<lparr>startPoint := Some pos\<rparr>
         in if tool st = PAN \<or> button e = 1 then Some (st1\<lparr>action := panning\<rparr>)
            else if tool st = SELECT then
              (case find (\<lambda>i. isPointInShape (p_x pos) (p_y pos)
                                 (heap st ! (shapes (state st) ! i)))
                         (rev [0..<length (shapes (state st))]) of
                 Some i \<Rightarrow> Some (st1\<lparr>selectedIndices := [i], action := dragging\<rparr>)
               | None \<Rightarrow> Some (st1\<lparr>selectedIndices := []\<rparr>))
            else if tool st = TEXT then
              (let newShape = updateBoundingBox
                     \<lparr>shape_id = now, shape_color = color st, shape_stroke = 0,
                      shape_fontSize = fontSize st, bbox = None,
                      geom = Text (p_x pos) (p_y pos) []\<rparr> ctx
               in addNewShape newShape
                    (st1\<lparr>isDrawing := False,
                         editingShapeIndex := Some (length (shapes (state st)))\<rparr>))
            else
              (let st2 = st1\<lparr>action := drawing, isDrawing := True\<rparr>
               in case newShapeFor st now pos of
                    None \<Rightarrow> Some st2
                  | Some newShape \<Rightarrow> addNewShape (updateBoundingBox newShape ctx) st2)))"

text \<open>Moving a selected shape by \<open>(dx, dy)\<close> (l. 428-434).\<close>

definition translateShape :: "real \<Rightarrow> real \<Rightarrow> Shape \<Rightarrow> Shape" where
  "translateShape dx dy shape =
     shape\<lparr>geom :=
       (case geom shape of
          Freehand points \<Rightarrow> Freehand (map (\<lambda>p. \<lparr>p_x = p_x p + dx, p_y = p_y p + dy\<rparr>) points)
        | Eraser points \<Rightarrow> Eraser (map (\<lambda>p. \<lparr>p_x = p_x p + dx, p_y = p_y p + dy\<rparr>) points)
        | Arrow x1 y1 x2 y2 \<Rightarrow> Arrow (x1 + dx) (y1 + dy) (x2 + dx) (y2 + dy)
        | Rect x y w h \<Rightarrow> Rect (x + dx) (y + dy) w h
        | Circle x y w h \<Rightarrow> Circle (x + dx) (y + dy) w h
        | Text x y t \<Rightarrow> Text (x + dx) (y + dy) t)\<rparr>"

text \<open>
  \<open>selectedIndices.forEach\<close>: each selected object is moved in place; an index that is
  out of range reads \<open>undefined\<close>, and \<open>shape.type\<close> throws.
\<close>

fun dragSelected :: "Ctx \<Rightarrow> real \<Rightarrow> real \<Rightarrow> ref list \<Rightarrow> nat list \<Rightarrow> Shape list \<Rightarrow> Shape list option" where
  "dragSelected ctx dx dy currentShapes [] h = Some h"
| "dragSelected ctx dx dy currentShapes (index # rest) h =
     (case lookup currentShapes index of
        None \<Rightarrow> None
      | Some r \<Rightarrow>
          dragSelected ctx dx dy currentShapes rest
            (h[r := updateBoundingBox (translateShape dx dy (h ! r)) ctx]))"

text \<open>The overlap test of the eraser (l. 460), \<open>a\<close> the eraser's box, \<open>b\<close> the shape's.\<close>

definition intersect :: "BBox \<Rightarrow> BBox \<Rightarrow> bool" where
  "intersect a b =
     (bb_x a < bb_x b + bb_width b \<and> bb_x a + bb_width a > bb_x b \<and>
      bb_y a < bb_y b + bb_height b \<and> bb_y a + bb_height a > bb_y b)"

definition eraserBBox :: "Point \<Rightarrow> real \<Rightarrow> BBox" where
  "eraserBBox pos es =
     \<lparr>bb_x = p_x pos - es, bb_y = p_y pos - es, bb_width = es * 2, bb_height = es * 2\<rparr>"

text \<open>
  The test of the eraser's filter on one shape other than the last one: the shape goes
  when it has a box, the box overlaps the eraser's, and its type is neither
  \<open>eraser\<close> nor \<open>freehand\<close>.
\<close>

definition erased :: "BBox \<Rightarrow> Shape \<Rightarrow> bool" where
  "erased a shape =
     (case bbox shape of
        None \<Rightarrow> False
      | Some b \<Rightarrow> intersect a b \<and> shapeType shape \<noteq> ERASER \<and> shapeType shape \<noteq> FREEHAND)"

text \<open>The geometry update of a plain drawing move (\<open>switch (lastShape.type)\<close>, l. 468-479).\<close>

definition extendShape :: "Point \<Rightarrow> Shape \<Rightarrow> Shape" where
  "extendShape pos shape =
     shape\<lparr>geom :=
       (case geom shape of
          Freehand points \<Rightarrow> Freehand (points @ [pos])
        | Eraser points \<Rightarrow> Eraser (points @ [pos])
        | Rect x y w h \<Rightarrow> Rect x y (p_x pos - x) (p_y pos - y)
        | Circle x y w h \<Rightarrow> Circle x y (p_x pos - x) (p_y pos - y)
        | Arrow x1 y1 x2 y2 \<Rightarrow> Arrow x1 y1 (p_x pos) (p_y pos)
        | Text x y t \<Rightarrow> Text x y t)\<rparr>"

definition handlePointerMove :: "Ctx \<Rightarrow> CanvasEvent \<Rightarrow> Whiteboard \<Rightarrow> Whiteboard option" where
  "handlePointerMove ctx e st =
     (case startPoint st of
        None \<Rightarrow> Some st
      | Some sp \<Rightarrow>
         (let pos = getPointerWorldPos e (view st);
              currentShapes = shapes (state st)
          in if action st = panning then
               Some (st\<lparr>view := (view st)\<lparr>view_x := view_x (view st) + movementX e,
                                          view_y := view_y (view st) + movementY e\<rparr>\<rparr>)
             else if action st = dragging \<and> selectedIndices st \<noteq> [] then
               (let dx = p_x pos - p_x sp; dy = p_y pos - p_y sp
                in case dragSelected ctx dx dy currentShapes (selectedIndices st) (heap st) of
                     None \<Rightarrow> None
                   | Some h \<Rightarrow>
                       dispatch (SET_SHAPES_NO_HISTORY currentShapes)
                         (st\<lparr>heap := h, startPoint := Some pos\<rparr>))
             else if \<not> isDrawing st then Some st
             else if currentShapes = [] then Some st
             else
               (let r = last currentShapes; lastShape = heap st ! r
                in if action st = drawing \<and> tool st = ERASER then
                     (case geom lastShape of
                        Eraser points \<Rightarrow>
                          (let h = (heap st)[r := lastShape\<lparr>geom := Eraser (points @ [pos])\<rparr>];
                               a = eraserBBox pos (eraserStroke st);
                               filtered = filterIndexed
                                 (\<lambda>s idx. idx = length currentShapes - 1 \<or> \<not> erased a (h ! s))
                                 currentShapes
                           in dispatch (SET_SHAPES_NO_HISTORY filtered) (st\<lparr>heap := h\<rparr>))
                      | _ \<Rightarrow> Some st)
                   else
                     dispatch (SET_SHAPES_NO_HISTORY currentShapes)
                       (st\<lparr>heap := (heap st)
                              [r := updateBoundingBox (extendShape pos lastShape) ctx]\<rparr>))))"

text \<open>
  Pointer-up and pointer-leave.  A drag to the left or upwards leaves a negative
  width or height, which is turned around here (l. 489-492).
\<close>

definition normalizeShape :: "Shape \<Rightarrow> Shape" where
  "normalizeShape shape =
     shape\<lparr>geom :=
       (case geom shape of
          Rect x y w h \<Rightarrow>
            (let (x', w') = (if w < 0 then (x + w, w * (-1)) else (x, w));
                 (y', h') = (if h < 0 then (y + h, h * (-1)) else (y, h))
             in Rect x' y' w' h')
        | Circle x y w h \<Rightarrow>
            (let (x', w') = (if w < 0 then (x + w, w * (-1)) else (x, w));
                 (y', h') = (if h < 0 then (y + h, h * (-1)) else (y, h))
             in Circle x' y' w' h')
        | g \<Rightarrow> g)\<rparr>"

definition handlePointerUp :: "Ctx \<Rightarrow> Whiteboard \<Rightarrow> Whiteboard option" where
  "handlePointerUp ctx st =
     map_option (\<lambda>s. s\<lparr>isDrawing := False, action := none, startPoint := None\<rparr>)
       (if action st = drawing then
          (let currentShapes = shapes (state st)
           in if currentShapes = [] then Some st
              else
                (let r = last currentShapes; lastShape = heap st ! r
                 in dispatch (UPDATE_SHAPES currentShapes)
                      (st\<lparr>heap := (heap st)
                             [r := updateBoundingBox (normalizeShape lastShape) ctx]\<rparr>)))
        else Some st)"

text \<open>The wheel handler; the zoom buttons call it with \<open>deltaY = \<plusminus>100\<close>.\<close>

definition handleWheel :: "CanvasEvent \<Rightarrow> Whiteboard \<Rightarrow> Whiteboard" where
  "handleWheel e st =
     (if editingShapeIndex st \<noteq> None then st
      else
        (let zoomFactor = (if deltaY e < 0 then 1.1 else 1 / 1.1);
             pointerX = clientX e - rectLeft e;
             pointerY = clientY e - rectTop e;
             newViewX = pointerX - (pointerX - view_x (view st)) * zoomFactor;
             newViewY = pointerY - (pointerY - view_y (view st)) * zoomFactor
         in st\<lparr>view := \<lparr>view_x = newViewX, view_y = newViewY,
                        view_zoom = max 0.1 (min (view_zoom (view st) * zoomFactor) 10)\<rparr>\<rparr>))"

section \<open>The reducer of the room board\<close>

text \<open>
  The collaborative board (\<open>WhiteboardCanvas.tsx\<close>) has its own element type and its
  own reducer.  It copies instead of mutating, so elements are plain values.  Its
  fields and the actions \<open>UNDO\<close> and \<open>REDO\<close> are prefixed where the name is already
  taken by the standalone board.
\<close>

record WhiteboardElement =
  el_id :: string
  el_type :: Tool
  el_points :: "Point list"
  el_color :: string
  el_strokeWidth :: real
  el_fontSize :: "real option"
  el_text :: "string option"
  el_bbox :: "BBox option"

record WhiteboardState =
  elements :: "WhiteboardElement list"
  selectedElementIds :: "string list"
  w_history :: "WhiteboardElement list list"
  w_historyIndex :: nat
  zoom :: real
  pan :: Point

text \<open>\<open>Partial<WhiteboardElement>\<close>: \<open>None\<close> is an absent key.\<close>

record ElementUpdates =
  u_id :: "string option"
  u_type :: "Tool option"
  u_points :: "Point list option"
  u_color :: "string option"
  u_strokeWidth :: "real option"
  u_fontSize :: "real option option"
  u_text :: "string option option"
  u_bbox :: "BBox option option"

definition applyUpdates :: "WhiteboardElement \<Rightarrow> ElementUpdates \<Rightarrow> WhiteboardElement" where
  \<comment> \<open>\<open>{ ...el, ...action.updates }\<close>\<close>
  "applyUpdates el u =
     \<lparr>el_id = (case u_id u of None \<Rightarrow> el_id el | Some v \<Rightarrow> v),
      el_type = (case u_type u of None \<Rightarrow> el_type el | Some v \<Rightarrow> v),
      el_points = (case u_points u of None \<Rightarrow> el_points el | Some v \<Rightarrow> v),
      el_color = (case u_color u of None \<Rightarrow> el_color el | Some v \<Rightarrow> v),
      el_strokeWidth = (case u_strokeWidth u of None \<Rightarrow> el_strokeWidth el | Some v \<Rightarrow> v),
      el_fontSize = (case u_fontSize u of None \<Rightarrow> el_fontSize el | Some v \<Rightarrow> v),
      el_text = (case u_text u of None \<Rightarrow> el_text el | Some v \<Rightarrow> v),
      el_bbox = (case u_bbox u of None \<Rightarrow> el_bbox el | Some v \<Rightarrow> v)\<rparr>"

datatype WhiteboardAction =
    ADD_ELEMENT WhiteboardElement
  | UPDATE_ELEMENT string ElementUpdates
  | DELETE_ELEMENTS "string list"
  | SELECT_ELEMENTS "string list"
  | CLEAR_SELECTION
  | W_UNDO
  | W_REDO
  | CLEAR_ALL
  | SET_ZOOM real
  | SET_PAN Point
  | LOAD_STATE "WhiteboardElement list"

definition initialWhiteboardState :: WhiteboardState where
  "initialWhiteboardState =
     \<lparr>elements = [], selectedElementIds = [], w_history = [[]], w_historyIndex = 0,
      zoom = 1, pan = \<lparr>p_x = 0, p_y = 0\<rparr>\<rparr>"

fun whiteboardReducer :: "WhiteboardState \<Rightarrow> WhiteboardAction \<Rightarrow> WhiteboardState option" where
  "whiteboardReducer s (ADD_ELEMENT element) =
     (let newElements = elements s @ [element]
      in Some (s\<lparr>elements := newElements,
                       w_history := take (w_historyIndex s + 1) (w_history s)
                                      @ [newElements],
                       w_historyIndex := w_historyIndex s + 1\<rparr>))"
| "whiteboardReducer s (UPDATE_ELEMENT ident updates) =
     (let updatedElements =
            map (\<lambda>el. if el_id el = ident then applyUpdates el updates else el) (elements s)
      in Some (s\<lparr>elements := updatedElements\<rparr>))"
| "whiteboardReducer s (DELETE_ELEMENTS ids) =
     (let filteredElements = filter (\<lambda>el. el_id el \<notin> set ids) (elements s)
      in Some (s\<lparr>elements := filteredElements,
                       selectedElementIds := [],
                       w_history := take (w_historyIndex s + 1) (w_history s)
                                      @ [filteredElements],
                       w_historyIndex := w_historyIndex s + 1\<rparr>))"
| "whiteboardReducer s (SELECT_ELEMENTS ids) = Some (s\<lparr>selectedElementIds := ids\<rparr>)"
| "whiteboardReducer s CLEAR_SELECTION = Some (s\<lparr>selectedElementIds := []\<rparr>)"
| "whiteboardReducer s W_UNDO =
     (if w_historyIndex s > 0 then
        (case lookup (w_history s) (w_historyIndex s - 1) of
           None \<Rightarrow> None
         | Some scene \<Rightarrow>
             Some (s\<lparr>elements := scene,
                          w_historyIndex := w_historyIndex s - 1,
                          selectedElementIds := []\<rparr>))
      else Some s)"
| "whiteboardReducer s W_REDO =
     (if int (w_historyIndex s) < int (length (w_history s)) - 1 then
        (case lookup (w_history s) (w_historyIndex s + 1) of
           None \<Rightarrow> None
         | Some scene \<Rightarrow>
             Some (s\<lparr>elements := scene,
                          w_historyIndex := w_historyIndex s + 1,
                          selectedElementIds := []\<rparr>))
      else Some s)"
| "whiteboardReducer s CLEAR_ALL =
     (let emptyElements = []
      in Some (s\<lparr>elements := emptyElements,
                       selectedElementIds := [],
                       w_history := take (w_historyIndex s + 1) (w_history s)
                                      @ [emptyElements],
                       w_historyIndex := w_historyIndex s + 1\<rparr>))"
| "whiteboardReducer s (SET_ZOOM z) = Some (s\<lparr>zoom := max 0.1 (min 5 z)\<rparr>)"
| "whiteboardReducer s (SET_PAN p) = Some (s\<lparr>pan := p\<rparr>)"
| "whiteboardReducer s (LOAD_STATE els) = Some (s\<lparr>elements := els\<rparr>)"

fun w_dispatchAll :: "WhiteboardState \<Rightarrow> WhiteboardAction list \<Rightarrow> WhiteboardState option" where
  "w_dispatchAll s [] = Some s"
| "w_dispatchAll s (a # as) =
     (case whiteboardReducer s a of
        None \<Rightarrow> None
      | Some s' \<Rightarrow> w_dispatchAll s' as)"

section \<open>The room board component\<close>

text \<open>
  The \<open>useState\<close> cells of \<open>WhiteboardCanvas\<close> next to its reducer state.  The
  messages it emits to the socket do not enter any state and are left out.
\<close>

record TextInput =
  ti_x :: real
  ti_y :: real
  ti_value :: string

record Room =
  wstate :: WhiteboardState
  currentTool :: Tool
  currentColor :: string
  currentStroke :: real
  currentFontSize :: real
  r_isDrawing :: bool
  currentElement :: "WhiteboardElement option"
  r_startPoint :: "Point option"
  textInput :: "TextInput option"

definition initialRoom :: Room where
  "initialRoom =
     \<lparr>wstate = initialWhiteboardState, currentTool = FREEHAND, currentColor = ''#1e1e1e'',
      currentStroke = 4, currentFontSize = 16, r_isDrawing = False, currentElement = None,
      r_startPoint = None, textInput = None\<rparr>"

definition w_dispatch :: "WhiteboardAction \<Rightarrow> Room \<Rightarrow> Room option" where
  "w_dispatch a rm = map_option (\<lambda>s. rm\<lparr>wstate := s\<rparr>) (whiteboardReducer (wstate rm) a)"

definition getMousePos :: "CanvasEvent \<Rightarrow> WhiteboardState \<Rightarrow> Point" where
  "getMousePos e s =
     \<lparr>p_x = (clientX e - rectLeft e - p_x (pan s) * zoom s) / zoom s,
      p_y = (clientY e - rectTop e - p_y (pan s) * zoom s) / zoom s\<rparr>"

text \<open>The hit test of the eraser (l. 360-372); \<open>Math.hypot a b\<close> is \<open>sqrt (a\<^sup>2 + b\<^sup>2)\<close>.\<close>

definition eraserHits :: "Point \<Rightarrow> WhiteboardElement \<Rightarrow> bool" where
  "eraserHits point el =
     (if el_type el = FREEHAND then
        list_ex (\<lambda>p. sqrt ((p_x p - p_x point)\<^sup>2 + (p_y p - p_y point)\<^sup>2) < 10) (el_points el)
      else
        (case el_points el of
           [] \<Rightarrow> False
         | q # qs \<Rightarrow>
             (let minX = Math_min (p_x q) (map p_x qs);
                  maxX = Math_max (p_x q) (map p_x qs);
                  minY = Math_min (p_y q) (map p_y qs);
                  maxY = Math_max (p_y q) (map p_y qs)
              in p_x point \<ge> minX \<and> p_x point \<le> maxX \<and>
                 p_y point \<ge> minY \<and> p_y point \<le> maxY)))"

text \<open>\<open>handleMouseDown\<close>; \<open>findLast\<close> is \<open>find\<close> on the reversed array.\<close>

definition handleMouseDown :: "string \<Rightarrow> CanvasEvent \<Rightarrow> Room \<Rightarrow> Room option" where
  "handleMouseDown now e rm =
     (let point = getMousePos e (wstate rm)
      in if currentTool rm = ERASER then
           (case find (eraserHits point) (rev (elements (wstate rm))) of
              Some hitElement \<Rightarrow> w_dispatch (DELETE_ELEMENTS [el_id hitElement]) rm
            | None \<Rightarrow> Some rm)
         else if currentTool rm = TEXT then
           Some (rm\<lparr>textInput := Some \<lparr>ti_x = p_x point, ti_y = p_y point, ti_value = []\<rparr>\<rparr>)
         else
           (let rm1 = rm\<lparr>r_isDrawing := True, r_startPoint := Some point\<rparr>
            in if currentTool rm \<in> {FREEHAND, RECT, CIRCLE, ARROW} then
                 Some (rm1\<lparr>currentElement := Some
                        \<lparr>el_id = now, el_type = currentTool rm, el_points = [point],
                         el_color = currentColor rm, el_strokeWidth = currentStroke rm,
                         el_fontSize = None, el_text = None, el_bbox = None\<rparr>\<rparr>)
               else Some rm1))"

text \<open>
  The text input of the room board: typing only changes the input's value, and
  \<open>onBlur\<close> adds an element when the trimmed value is not empty.
\<close>

definition onChangeInput :: "string \<Rightarrow> Room \<Rightarrow> Room" where
  "onChangeInput v rm =
     (case textInput rm of
        None \<Rightarrow> rm
      | Some ti \<Rightarrow> rm\<lparr>textInput := Some (ti\<lparr>ti_value := v\<rparr>)\<rparr>)"

definition onBlurInput :: "string \<Rightarrow> Room \<Rightarrow> Room option" where
  "onBlurInput now rm =
     (case textInput rm of
        None \<Rightarrow> Some rm
      | Some ti \<Rightarrow>
          map_option (\<lambda>r. r\<lparr>textInput := None\<rparr>)
            (if trim (ti_value ti) \<noteq> [] then
               w_dispatch (ADD_ELEMENT
                 \<lparr>el_id = now, el_type = TEXT,
                  el_points = [\<lparr>p_x = ti_x ti, p_y = ti_y ti\<rparr>],
                  el_color = currentColor rm, el_strokeWidth = 1,
                  el_fontSize = Some (currentFontSize rm),
                  el_text = Some (ti_value ti), el_bbox = None\<rparr>) rm
             else Some rm))"

definition handleZoomIn :: "Room \<Rightarrow> Room option" where
  "handleZoomIn rm = w_dispatch (SET_ZOOM (zoom (wstate rm) * 1.2)) rm"

definition handleZoomOut :: "Room \<Rightarrow> Room option" where
  "handleZoomOut rm = w_dispatch (SET_ZOOM (zoom (wstate rm) / 1.2)) rm"

text \<open>The socket handler \<open>socket.on('whiteboard-update', data => ...)\<close>.\<close>

definition onWhiteboardUpdate :: "WhiteboardElement list \<Rightarrow> Room \<Rightarrow> Room option" where
  "onWhiteboardUpdate data rm = w_dispatch (LOAD_STATE data) rm"

section \<open>Gestures of the standalone board\<close>

text \<open>
  A drawing gesture is a pointer-down, the pointer-moves that follow it, and the
  pointer-up (or pointer-leave) that ends it; each handler runs on the state the
  previous one left.
\<close>

fun pointerMoves :: "Ctx \<Rightarrow> CanvasEvent list \<Rightarrow> Whiteboard \<Rightarrow> Whiteboard option" where
  "pointerMoves ctx [] st = Some st"
| "pointerMoves ctx (e # es) st =
     (case handlePointerMove ctx e st of None \<Rightarrow> None | Some st' \<Rightarrow> pointerMoves ctx es st')"

definition drawGesture :: "Ctx \<Rightarrow> string \<Rightarrow> CanvasEvent \<Rightarrow> CanvasEvent list \<Rightarrow> Whiteboard \<Rightarrow> Whiteboard option" where
  "drawGesture ctx now down moves st =
     (case handlePointerDown ctx now down st of
        None \<Rightarrow> None
      | Some st1 \<Rightarrow>
          (case pointerMoves ctx moves st1 of
             None \<Rightarrow> None
           | Some st2 \<Rightarrow> handlePointerUp ctx st2))"

text \<open>
  A text session of the standalone board: the pointer-down with the text tool, the
  values the text area reports while the user types, and the blur (or Escape) that
  ends the editing.
\<close>

fun typeText :: "Ctx \<Rightarrow> string list \<Rightarrow> Whiteboard \<Rightarrow> Whiteboard option" where
  "typeText ctx [] st = Some st"
| "typeText ctx (v # vs) st =
     (case onChangeText ctx v st of None \<Rightarrow> None | Some st' \<Rightarrow> typeText ctx vs st')"

definition textSession :: "Ctx \<Rightarrow> string \<Rightarrow> CanvasEvent \<Rightarrow> string list \<Rightarrow> Whiteboard \<Rightarrow> Whiteboard option" where
  "textSession ctx now down typed st =
     (case handlePointerDown ctx now down st of
        None \<Rightarrow> None
      | Some st1 \<Rightarrow>
          (case typeText ctx typed st1 of
             None \<Rightarrow> None
           | Some st2 \<Rightarrow> finishEditingText (Some ctx) st2))"

section \<open>The commit of the specification\<close>

text \<open>
  The specification's \<open>commit(scene)\<close>, in its own words: from the snapshots \<open>h\<close> with
  cursor \<open>i\<close>, truncate to the indices \<open>0..i\<close>, append the scene, and set the cursor
  to the new last index; afterwards the cursor is within the snapshots and the
  snapshot under it is the committed scene.  The reducers are compared with it.
\<close>

definition spec_commit :: "'a list list \<Rightarrow> nat \<Rightarrow> 'a list \<Rightarrow> 'a list list \<Rightarrow> nat \<Rightarrow> bool" where
  "spec_commit h i scene h' i' =
     (h' = take (i + 1) h @ [scene] \<and> i' + 1 = length h' \<and> i' < length h' \<and>
      lookup h' i' = Some scene)"

section \<open>Sample inputs\<close>

definition sampleCtx :: Ctx where
  "sampleCtx px t =
     \<lparr>tm_width = px * real (length t), actualBoundingBoxAscent = px,
      actualBoundingBoxDescent = 0\<rparr>"

definition pointerAt :: "real \<Rightarrow> real \<Rightarrow> CanvasEvent" where
  "pointerAt x y =
     \<lparr>clientX = x, clientY = y, rectLeft = 0, rectTop = 0, button = 0,
      movementX = 0, movementY = 0, deltaY = 0\<rparr>"

definition sampleRect :: WhiteboardElement where
  "sampleRect =
     \<lparr>el_id = ''1700000000000'', el_type = RECT,
      el_points = [\<lparr>p_x = 0, p_y = 0\<rparr>, \<lparr>p_x = 40, p_y = 30\<rparr>],
      el_color = ''#1e1e1e'', el_strokeWidth = 4,
      el_fontSize = None, el_text = None, el_bbox = None\<rparr>"

definition sampleStroke :: WhiteboardElement where
  "sampleStroke =
     \<lparr>el_id = ''1700000000001'', el_type = FREEHAND,
      el_points = [\<lparr>p_x = 5, p_y = 5\<rparr>, \<lparr>p_x = 6, p_y = 7\<rparr>],
      el_color = ''#e03131'', el_strokeWidth = 4,
      el_fontSize = None, el_text = None, el_bbox = None\<rparr>"

definition sampleBoard :: Whiteboard where
  "sampleBoard = initialWhiteboard
     \<lparr>heap :=
        [\<lparr>shape_id = ''1700000000100'', shape_color = ''#1e1e1e'', shape_stroke = 4,
          shape_fontSize = 24,
          bbox = Some \<lparr>bb_x = 0, bb_y = 0, bb_width = 40, bb_height = 30\<rparr>,
          geom = Rect 0 0 40 30\<rparr>,
         \<lparr>shape_id = ''1700000000200'', shape_color = ''#1e1e1e'', shape_stroke = 4,
          shape_fontSize = 24,
          bbox = Some \<lparr>bb_x = 3, bb_y = 3, bb_width = 19, bb_height = 19\<rparr>,
          geom = Freehand [\<lparr>p_x = 5, p_y = 5\<rparr>, \<lparr>p_x = 20, p_y = 20\<rparr>]\<rparr>,
         \<lparr>shape_id = ''1700000000300'', shape_color = ''#fff'', shape_stroke = 12,
          shape_fontSize = 24,
          bbox = Some \<lparr>bb_x = 94, bb_y = 94, bb_width = 12, bb_height = 12\<rparr>,
          geom = Eraser [\<lparr>p_x = 100, p_y = 100\<rparr>]\<rparr>],
      state := \<lparr>shapes = [0, 1, 2],
                history = [[], [0], [0], [0, 1], [0, 1], [0, 1, 2]], historyIndex = 5\<rparr>,
      tool := ERASER, isDrawing := True,
      startPoint := Some \<lparr>p_x = 100, p_y = 100\<rparr>, action := drawing\<rparr>"

definition sampleRoom :: Room where
  "sampleRoom = initialRoom
     \<lparr>wstate := initialWhiteboardState
        \<lparr>elements := [sampleRect, sampleStroke],
         w_history := [[], [sampleRect], [sampleRect, sampleStroke]],
         w_historyIndex := 2\<rparr>,
      currentTool := ERASER\<rparr>"

definition sampleEditing :: Whiteboard where
  "sampleEditing = initialWhiteboard
     \<lparr>heap := [\<lparr>shape_id = ''1700000000400'', shape_color = ''#1e1e1e'', shape_stroke = 0,
                shape_fontSize = 24,
                bbox = Some \<lparr>bb_x = 10, bb_y = -14, bb_width = 0, bb_height = 24\<rparr>,
                geom = Text 10 10 []\<rparr>],
      state := \<lparr>shapes = [0], history = [[], [0]], historyIndex = 1\<rparr>,
      tool := TEXT, startPoint := Some \<lparr>p_x = 10, p_y = 10\<rparr>,
      editingShapeIndex := Some 0\<rparr>"

definition sampleTyping :: Room where
  "sampleTyping = initialRoom
     \<lparr>currentTool := TEXT,
      textInput := Some \<lparr>ti_x = 3, ti_y = 4, ti_value = ''hi''\<rparr>\<rparr>"

section \<open>Properties of the standalone reducer\<close>

lemma lookup_nth: "i < length xs \<Longrightarrow> lookup xs i = Some (xs ! i)"
  by (simp add: lookup_def)

lemma dispatchAll_append:
  "dispatchAll s (as @ bs) =
     (case dispatchAll s as of None \<Rightarrow> None | Some s' \<Rightarrow> dispatchAll s' bs)"
  by (induction as arbitrary: s) (auto split: option.splits)

lemma length_prefixes: "length (prefixes ps) = Suc (length ps)"
  by (simp add: prefixes_def)

lemma prefixes_nth: "k \<le> length ps \<Longrightarrow> prefixes ps ! k = take k ps"
  unfolding prefixes_def by (simp add: nth_append del: upt_Suc)

lemma prefixes_snoc: "prefixes (ps @ [p]) = prefixes ps @ [ps @ [p]]"
  unfolding prefixes_def by simp

lemma add_shapes_from_initial:
  "dispatchAll initialState (map ADD_SHAPE ps) =
     Some \<lparr>shapes = ps, history = prefixes ps, historyIndex = length ps\<rparr>"
proof (induction ps rule: rev_induct)
  case Nil
  show ?case by (simp add: initialState_def prefixes_def)
next
  case (snoc p ps)
  show ?case
    by (simp add: dispatchAll_append snoc.IH length_prefixes prefixes_snoc Let_def)
qed

lemma undo_steps:
  "k \<le> historyIndex s \<Longrightarrow> historyIndex s < length (history s) \<Longrightarrow>
   shapes s = history s ! historyIndex s \<Longrightarrow>
   dispatchAll s (replicate k UNDO) =
     Some (s\<lparr>shapes := history s ! (historyIndex s - k), historyIndex := historyIndex s - k\<rparr>)"
proof (induction k arbitrary: s)
  case 0
  then show ?case by simp
next
  case (Suc k)
  let ?s1 = "s\<lparr>shapes := history s ! (historyIndex s - 1), historyIndex := historyIndex s - 1\<rparr>"
  from Suc.prems have step: "reducer s UNDO = Some ?s1"
    by (simp add: lookup_nth Let_def)
  from Suc.prems have "dispatchAll ?s1 (replicate k UNDO) =
      Some (?s1\<lparr>shapes := history ?s1 ! (historyIndex ?s1 - k),
                 historyIndex := historyIndex ?s1 - k\<rparr>)"
    by (intro Suc.IH) simp_all
  with step show ?case by simp
qed

lemma reducer_invariant:
  "historyIndex s < length (history s) \<Longrightarrow> reducer s a = Some s' \<Longrightarrow>
   historyIndex s' < length (history s')"
  by (cases a) (auto simp: Let_def lookup_def split: if_splits)

lemma reducer_total:
  "historyIndex s < length (history s) \<Longrightarrow> \<exists>s'. reducer s a = Some s'"
  by (cases a) (auto simp: Let_def lookup_def)

lemma dispatchAll_total:
  "historyIndex s < length (history s) \<Longrightarrow>
   \<exists>s'. dispatchAll s as = Some s' \<and> historyIndex s' < length (history s')"
proof (induction as arbitrary: s)
  case Nil
  then show ?case by simp
next
  case (Cons a as)
  from reducer_total [OF Cons.prems] obtain s1 where s1: "reducer s a = Some s1" ..
  with Cons.prems have "historyIndex s1 < length (history s1)"
    by (rule reducer_invariant)
  from Cons.IH [OF this] s1 show ?case by simp
qed

lemma add_then_undo_all:
  "dispatchAll initialState (map ADD_SHAPE ps @ replicate (length ps) UNDO) =
     Some \<lparr>shapes = [], history = prefixes ps, historyIndex = 0\<rparr>"
proof -
  let ?s = "\<lparr>shapes = ps, history = prefixes ps, historyIndex = length ps\<rparr>"
  have "dispatchAll ?s (replicate (length ps) UNDO) =
      Some (?s\<lparr>shapes := history ?s ! (historyIndex ?s - length ps),
                historyIndex := historyIndex ?s - length ps\<rparr>)"
    by (rule undo_steps) (simp_all add: length_prefixes prefixes_nth)
  then show ?thesis
    by (simp add: dispatchAll_append add_shapes_from_initial prefixes_nth)
qed

section \<open>Properties of the room reducer\<close>

lemma w_dispatchAll_append:
  "w_dispatchAll s (as @ bs) =
     (case w_dispatchAll s as of None \<Rightarrow> None | Some s' \<Rightarrow> w_dispatchAll s' bs)"
  by (induction as arbitrary: s) (auto split: option.splits)

lemma add_elements_from_initial:
  "w_dispatchAll initialWhiteboardState (map ADD_ELEMENT es) =
     Some (initialWhiteboardState
             \<lparr>elements := es, w_history := prefixes es, w_historyIndex := length es\<rparr>)"
proof (induction es rule: rev_induct)
  case Nil
  show ?case by (simp add: initialWhiteboardState_def prefixes_def)
next
  case (snoc e es)
  show ?case
    by (simp add: w_dispatchAll_append snoc.IH length_prefixes prefixes_snoc Let_def)
qed

lemma w_undo_steps:
  "k \<le> w_historyIndex s \<Longrightarrow> w_historyIndex s < length (w_history s) \<Longrightarrow>
   elements s = w_history s ! w_historyIndex s \<Longrightarrow> selectedElementIds s = [] \<Longrightarrow>
   w_dispatchAll s (replicate k W_UNDO) =
     Some (s\<lparr>elements := w_history s ! (w_historyIndex s - k),
              w_historyIndex := w_historyIndex s - k\<rparr>)"
proof (induction k arbitrary: s)
  case 0
  then show ?case by simp
next
  case (Suc k)
  let ?s1 = "s\<lparr>elements := w_history s ! (w_historyIndex s - 1),
               w_historyIndex := w_historyIndex s - 1\<rparr>"
  from Suc.prems have step: "whiteboardReducer s W_UNDO = Some ?s1"
    by (simp add: lookup_nth)
  from Suc.prems have "w_dispatchAll ?s1 (replicate k W_UNDO) =
      Some (?s1\<lparr>elements := w_history ?s1 ! (w_historyIndex ?s1 - k),
                 w_historyIndex := w_historyIndex ?s1 - k\<rparr>)"
    by (intro Suc.IH) simp_all
  with step show ?case by simp
qed

lemma add_elements_then_undo_all:
  "w_dispatchAll initialWhiteboardState (map ADD_ELEMENT es @ replicate (length es) W_UNDO) =
     Some (initialWhiteboardState\<lparr>w_history := prefixes es\<rparr>)"
proof -
  let ?s = "initialWhiteboardState
              \<lparr>elements := es, w_history := prefixes es, w_historyIndex := length es\<rparr>"
  have "w_dispatchAll ?s (replicate (length es) W_UNDO) =
      Some (?s\<lparr>elements := w_history ?s ! (w_historyIndex ?s - length es),
                w_historyIndex := w_historyIndex ?s - length es\<rparr>)"
    by (rule w_undo_steps)
       (simp_all add: length_prefixes prefixes_nth initialWhiteboardState_def)
  then show ?thesis
    unfolding w_dispatchAll_append add_elements_from_initial option.case
    by (simp add: prefixes_nth initialWhiteboardState_def)
qed

section \<open>Undo and redo at the ends of the history\<close>

text \<open>
  Claim C1.  From the initial history (one empty scene, cursor 0), committing the
  shapes \<open>ps\<close> one by one and then undoing as many times as there are shapes shows
  the empty scene again, with the cursor at 0; one more undo returns the very same
  state.  In any state whose cursor is 0 undo changes nothing, and in any state whose
  cursor is the last index of the history redo changes nothing.  This holds for the
  reducer of the standalone board and for the reducer of the room board.
\<close>

theorem undo_redo_boundaries:
  fixes ps :: "'a list" and s t :: "'a AppState"
  shows
  "dispatchAll initialState (map ADD_SHAPE ps @ replicate (length ps) UNDO)
     = Some \<lparr>shapes = [], history = prefixes ps, historyIndex = 0\<rparr>
   \<and> dispatchAll initialState (map ADD_SHAPE ps @ replicate (Suc (length ps)) UNDO)
     = dispatchAll initialState (map ADD_SHAPE ps @ replicate (length ps) UNDO)
   \<and> (historyIndex s = 0 \<longrightarrow> reducer s UNDO = Some s)
   \<and> (historyIndex t + 1 = length (history t) \<longrightarrow> reducer t REDO = Some t)
   \<and> w_dispatchAll initialWhiteboardState (map ADD_ELEMENT es @ replicate (length es) W_UNDO)
     = Some (initialWhiteboardState\<lparr>w_history := prefixes es\<rparr>)
   \<and> elements (initialWhiteboardState\<lparr>w_history := prefixes es\<rparr>) = []
   \<and> w_dispatchAll initialWhiteboardState
        (map ADD_ELEMENT es @ replicate (Suc (length es)) W_UNDO)
     = w_dispatchAll initialWhiteboardState (map ADD_ELEMENT es @ replicate (length es) W_UNDO)
   \<and> (w_historyIndex ws = 0 \<longrightarrow> whiteboardReducer ws W_UNDO = Some ws)
   \<and> (w_historyIndex wt + 1 = length (w_history wt) \<longrightarrow> whiteboardReducer wt W_REDO = Some wt)"
proof -
  have a: "dispatchAll initialState (map ADD_SHAPE ps @ replicate (Suc (length ps)) UNDO)
      = dispatchAll initialState (map ADD_SHAPE ps @ replicate (length ps) UNDO)"
  proof -
    have "replicate (Suc (length ps)) (UNDO :: 'a AppAction)
        = replicate (length ps) UNDO @ [UNDO]"
      by (simp add: replicate_append_same)
    then have "dispatchAll initialState (map ADD_SHAPE ps @ replicate (Suc (length ps)) UNDO)
        = dispatchAll initialState ((map ADD_SHAPE ps @ replicate (length ps) UNDO) @ [UNDO])"
      by simp
    also have "\<dots> = dispatchAll initialState (map ADD_SHAPE ps @ replicate (length ps) UNDO)"
      unfolding dispatchAll_append [of _ "map ADD_SHAPE ps @ replicate (length ps) UNDO"]
      by (simp add: add_then_undo_all)
    finally show ?thesis .
  qed
  have b: "w_dispatchAll initialWhiteboardState
        (map ADD_ELEMENT es @ replicate (Suc (length es)) W_UNDO)
      = w_dispatchAll initialWhiteboardState
          (map ADD_ELEMENT es @ replicate (length es) W_UNDO)"
  proof -
    have "replicate (Suc (length es)) W_UNDO = replicate (length es) W_UNDO @ [W_UNDO]"
      by (simp add: replicate_append_same)
    then have "w_dispatchAll initialWhiteboardState
          (map ADD_ELEMENT es @ replicate (Suc (length es)) W_UNDO)
        = w_dispatchAll initialWhiteboardState
            ((map ADD_ELEMENT es @ replicate (length es) W_UNDO) @ [W_UNDO])"
      by simp
    also have "\<dots> = w_dispatchAll initialWhiteboardState
          (map ADD_ELEMENT es @ replicate (length es) W_UNDO)"
      unfolding w_dispatchAll_append [of _ "map ADD_ELEMENT es @ replicate (length es) W_UNDO"]
        add_elements_then_undo_all option.case
      by (simp add: initialWhiteboardState_def)
    finally show ?thesis .
  qed
  have c: "elements (initialWhiteboardState\<lparr>w_history := prefixes es\<rparr>) = []"
    by (simp add: initialWhiteboardState_def)
  show ?thesis
    using a b c by (simp add: add_then_undo_all add_elements_then_undo_all)
qed

theorem undo_redo_boundaries_witness:
  "dispatchAll initialState [ADD_SHAPE (7 :: nat), ADD_SHAPE 8, UNDO, UNDO]
     = Some \<lparr>shapes = [], history = [[], [7], [7, 8]], historyIndex = 0\<rparr>
   \<and> reducer \<lparr>shapes = [], history = [[], [7 :: nat]], historyIndex = 0\<rparr> UNDO
     = Some \<lparr>shapes = [], history = [[], [7]], historyIndex = 0\<rparr>
   \<and> reducer \<lparr>shapes = [7 :: nat], history = [[], [7]], historyIndex = 1\<rparr> REDO
     = Some \<lparr>shapes = [7], history = [[], [7]], historyIndex = 1\<rparr>
   \<and> whiteboardReducer initialWhiteboardState W_UNDO = Some initialWhiteboardState
   \<and> whiteboardReducer initialWhiteboardState W_REDO = Some initialWhiteboardState"
  using undo_redo_boundaries [of "[7, 8 :: nat]"
      "\<lparr>shapes = [], history = [[], [7 :: nat]], historyIndex = 0\<rparr>"
      "\<lparr>shapes = [7 :: nat], history = [[], [7]], historyIndex = 1\<rparr>"
      "[]" initialWhiteboardState initialWhiteboardState]
  by (simp add: prefixes_def initialWhiteboardState_def initialState_def Let_def lookup_def)

section \<open>Commits\<close>

lemma spec_commit_intro:
  "h' = take (i + 1) h @ [scene] \<Longrightarrow> i' + 1 = length h' \<Longrightarrow> spec_commit h i scene h' i'"
  by (auto simp: spec_commit_def lookup_def nth_append)

lemma w_reducer_invariant:
  "w_historyIndex w < length (w_history w) \<Longrightarrow> whiteboardReducer w a = Some w' \<Longrightarrow>
   w_historyIndex w' < length (w_history w')"
  by (cases a) (auto simp: Let_def lookup_def split: if_splits)

lemma w_reducer_total:
  "w_historyIndex w < length (w_history w) \<Longrightarrow> \<exists>w'. whiteboardReducer w a = Some w'"
  by (cases a) (auto simp: Let_def lookup_def)

lemma w_dispatchAll_total:
  "w_historyIndex w < length (w_history w) \<Longrightarrow>
   \<exists>w'. w_dispatchAll w as = Some w' \<and> w_historyIndex w' < length (w_history w')"
proof (induction as arbitrary: w)
  case Nil
  then show ?case by simp
next
  case (Cons a as)
  from w_reducer_total [OF Cons.prems] obtain w1 where w1: "whiteboardReducer w a = Some w1" ..
  with Cons.prems have "w_historyIndex w1 < length (w_history w1)"
    by (rule w_reducer_invariant)
  from Cons.IH [OF this] w1 show ?case by simp
qed

text \<open>
  Claim C2.  A commit truncates the snapshots to the indices up to the cursor, appends
  the new scene and moves the cursor to the new last index, so that the cursor is
  within the snapshots and the snapshot under it is the committed scene, which is
  also the displayed one.  In the standalone board (ADD_SHAPE, UPDATE_SHAPES) this
  holds in every state.  The room board (ADD_ELEMENT, DELETE_ELEMENTS, CLEAR_ALL)
  sets the cursor to the old cursor plus one, which is the new last index for every
  history whose cursor lies within its snapshots, as the data model requires and
  as every action of the reducer preserves.
\<close>

theorem commit_truncates_and_appends:
  fixes s :: "'a AppState"
  assumes inv: "w_historyIndex w < length (w_history w)"
  shows
  "(\<exists>s'. reducer s (ADD_SHAPE p) = Some s' \<and> shapes s' = shapes s @ [p] \<and>
          spec_commit (history s) (historyIndex s) (shapes s') (history s') (historyIndex s'))
   \<and> (\<exists>s'. reducer s (UPDATE_SHAPES scene) = Some s' \<and> shapes s' = scene \<and>
          spec_commit (history s) (historyIndex s) scene (history s') (historyIndex s'))
   \<and> (\<exists>w'. whiteboardReducer w (ADD_ELEMENT e) = Some w' \<and> elements w' = elements w @ [e] \<and>
          spec_commit (w_history w) (w_historyIndex w) (elements w')
            (w_history w') (w_historyIndex w'))
   \<and> (\<exists>w'. whiteboardReducer w (DELETE_ELEMENTS ids) = Some w' \<and>
          elements w' = filter (\<lambda>el. el_id el \<notin> set ids) (elements w) \<and>
          spec_commit (w_history w) (w_historyIndex w) (elements w')
            (w_history w') (w_historyIndex w'))
   \<and> (\<exists>w'. whiteboardReducer w CLEAR_ALL = Some w' \<and> elements w' = [] \<and>
          spec_commit (w_history w) (w_historyIndex w) []
            (w_history w') (w_historyIndex w'))"
proof -
  have len: "length (take (Suc (w_historyIndex w)) (w_history w)) = Suc (w_historyIndex w)"
    using inv by simp
  have 1: "\<exists>s'. reducer s (ADD_SHAPE p) = Some s' \<and> shapes s' = shapes s @ [p] \<and>
          spec_commit (history s) (historyIndex s) (shapes s') (history s') (historyIndex s')"
    by (simp add: Let_def spec_commit_intro)
  have 2: "\<exists>s'. reducer s (UPDATE_SHAPES scene) = Some s' \<and> shapes s' = scene \<and>
          spec_commit (history s) (historyIndex s) scene (history s') (historyIndex s')"
    by (simp add: Let_def spec_commit_intro)
  have 3: "\<exists>w'. whiteboardReducer w (ADD_ELEMENT e) = Some w' \<and>
          elements w' = elements w @ [e] \<and>
          spec_commit (w_history w) (w_historyIndex w) (elements w')
            (w_history w') (w_historyIndex w')"
    using len by (simp add: Let_def spec_commit_intro)
  have 4: "\<exists>w'. whiteboardReducer w (DELETE_ELEMENTS ids) = Some w' \<and>
          elements w' = filter (\<lambda>el. el_id el \<notin> set ids) (elements w) \<and>
          spec_commit (w_history w) (w_historyIndex w) (elements w')
            (w_history w') (w_historyIndex w')"
    using len by (simp add: Let_def spec_commit_intro)
  have 5: "\<exists>w'. whiteboardReducer w CLEAR_ALL = Some w' \<and> elements w' = [] \<and>
          spec_commit (w_history w) (w_historyIndex w) []
            (w_history w') (w_historyIndex w')"
    using len by (simp add: Let_def spec_commit_intro)
  from 1 2 3 4 5 show ?thesis by blast
qed

theorem commit_truncates_and_appends_witness:
  "w_historyIndex initialWhiteboardState < length (w_history initialWhiteboardState)
   \<and> (\<exists>s'. reducer \<lparr>shapes = [], history = [[], [7 :: nat], [7, 8]], historyIndex = 0\<rparr>
              (ADD_SHAPE 9) = Some s' \<and> shapes s' = [9] \<and> history s' = [[], [9]] \<and>
            historyIndex s' = 1)
   \<and> (\<exists>w'. whiteboardReducer initialWhiteboardState (ADD_ELEMENT sampleRect) = Some w' \<and>
            elements w' = [sampleRect] \<and> w_history w' = [[], [sampleRect]] \<and>
            w_historyIndex w' = 1)"
proof -
  have inv: "w_historyIndex initialWhiteboardState < length (w_history initialWhiteboardState)"
    by (simp add: initialWhiteboardState_def)
  from commit_truncates_and_appends [OF inv,
      of "\<lparr>shapes = [], history = [[], [7 :: nat], [7, 8]], historyIndex = 0\<rparr>" 9 "[]"
         sampleRect "[]"]
  show ?thesis
    using inv by (simp add: spec_commit_def initialWhiteboardState_def Let_def)
qed

section \<open>Changes outside the history\<close>

text \<open>
  Claim C7, as stated, fails.  In the standalone board an eraser pass over the scene
  \<open>[0, 1]\<close> (a rectangle and the eraser stroke) that removes the rectangle dispatches
  SET_SHAPES_NO_HISTORY with \<open>[1]\<close>: the displayed scene becomes \<open>[1]\<close>, while the
  snapshot under the cursor is still \<open>[0, 1]\<close>.
\<close>

theorem no_history_keeps_snapshot_counterexample:
  "reducer \<lparr>shapes = [0, 1 :: nat], history = [[], [0], [0, 1]], historyIndex = 2\<rparr>
       (SET_SHAPES_NO_HISTORY [1])
     = Some \<lparr>shapes = [1], history = [[], [0], [0, 1]], historyIndex = 2\<rparr>
   \<and> lookup (history \<lparr>shapes = [1 :: nat], history = [[], [0], [0, 1]], historyIndex = 2\<rparr>)
         (historyIndex \<lparr>shapes = [1 :: nat], history = [[], [0], [0, 1]], historyIndex = 2\<rparr>)
     \<noteq> Some (shapes \<lparr>shapes = [1 :: nat], history = [[], [0], [0, 1]], historyIndex = 2\<rparr>)"
  by (simp add: lookup_def)

text \<open>
  Claim C7, amended.  Applying a change without history replaces only the displayed
  scene: SET_SHAPES_NO_HISTORY sets \<open>shapes\<close> to the given scene, and UPDATE_ELEMENT
  of the room board maps the update over \<open>elements\<close>.  The snapshots, the snapshot
  under the cursor among them, and the cursor stay as they are, and every other
  field too; the snapshot under the cursor equals the displayed scene afterwards
  exactly when it already was the scene that is applied.
\<close>

theorem no_history_replaces_displayed_scene_only:
  fixes s :: "'a AppState"
  shows
  "reducer s (SET_SHAPES_NO_HISTORY scene) = Some (s\<lparr>shapes := scene\<rparr>)
   \<and> history (s\<lparr>shapes := scene\<rparr>) = history s
   \<and> historyIndex (s\<lparr>shapes := scene\<rparr>) = historyIndex s
   \<and> lookup (history (s\<lparr>shapes := scene\<rparr>)) (historyIndex (s\<lparr>shapes := scene\<rparr>))
       = lookup (history s) (historyIndex s)
   \<and> (lookup (history (s\<lparr>shapes := scene\<rparr>)) (historyIndex (s\<lparr>shapes := scene\<rparr>))
         = Some (shapes (s\<lparr>shapes := scene\<rparr>))) = (lookup (history s) (historyIndex s) = Some scene)
   \<and> whiteboardReducer w (UPDATE_ELEMENT ident u)
       = Some (w\<lparr>elements :=
                   map (\<lambda>el. if el_id el = ident then applyUpdates el u else el) (elements w)\<rparr>)"
  by (simp add: Let_def)

section \<open>Clearing the board\<close>

text \<open>
  Claim C9, as stated, fails on the room board.  After one rectangle has been
  added, CLEAR_ALL leaves three snapshots with the cursor at 2, and the undo that
  follows shows the rectangle again.
\<close>

theorem clear_all_is_undoable_counterexample:
  "w_dispatchAll initialWhiteboardState [ADD_ELEMENT sampleRect, CLEAR_ALL]
     = Some \<lparr>elements = [], selectedElementIds = [],
             w_history = [[], [sampleRect], []], w_historyIndex = 2,
             zoom = 1, pan = \<lparr>p_x = 0, p_y = 0\<rparr>\<rparr>
   \<and> w_dispatchAll initialWhiteboardState [ADD_ELEMENT sampleRect, CLEAR_ALL, W_UNDO]
     = Some \<lparr>elements = [sampleRect], selectedElementIds = [],
             w_history = [[], [sampleRect], []], w_historyIndex = 1,
             zoom = 1, pan = \<lparr>p_x = 0, p_y = 0\<rparr>\<rparr>"
  by (simp add: initialWhiteboardState_def Let_def lookup_def)

text \<open>
  Claim C9, amended.  In the standalone board CLEAR resets the whole history to the
  initial state, a single empty scene with the cursor at 0, so that the undo right
  after it changes nothing.  In the room board CLEAR_ALL is a commit of the empty
  scene: for a history whose cursor lies within its snapshots, the snapshots up to
  the cursor are kept, the empty scene is appended, and the undo right after it
  shows the snapshot that was under the cursor before the clear.
\<close>

theorem clear_resets_standalone_commits_in_room:
  fixes s :: "'a AppState"
  assumes inv: "w_historyIndex w < length (w_history w)"
  shows
  "reducer s CLEAR = Some initialState
   \<and> dispatchAll s [CLEAR, UNDO] = Some initialState
   \<and> whiteboardReducer w CLEAR_ALL
       = Some (w\<lparr>elements := [], selectedElementIds := [],
                  w_history := take (w_historyIndex w + 1) (w_history w) @ [[]],
                  w_historyIndex := w_historyIndex w + 1\<rparr>)
   \<and> w_dispatchAll w [CLEAR_ALL, W_UNDO]
       = Some (w\<lparr>elements := w_history w ! w_historyIndex w, selectedElementIds := [],
                  w_history := take (w_historyIndex w + 1) (w_history w) @ [[]]\<rparr>)"
  using inv by (simp add: initialState_def Let_def lookup_def nth_append)

theorem clear_resets_standalone_commits_in_room_witness:
  "w_historyIndex (initialWhiteboardState
       \<lparr>elements := [sampleRect], w_history := [[], [sampleRect]], w_historyIndex := 1\<rparr>)
     < length (w_history (initialWhiteboardState
       \<lparr>elements := [sampleRect], w_history := [[], [sampleRect]], w_historyIndex := 1\<rparr>))
   \<and> dispatchAll \<lparr>shapes = [7 :: nat], history = [[], [7]], historyIndex = 1\<rparr> [CLEAR, UNDO]
     = Some \<lparr>shapes = [], history = [[]], historyIndex = 0\<rparr>
   \<and> w_dispatchAll (initialWhiteboardState
       \<lparr>elements := [sampleRect], w_history := [[], [sampleRect]], w_historyIndex := 1\<rparr>)
       [CLEAR_ALL, W_UNDO]
     = Some (initialWhiteboardState
       \<lparr>elements := [sampleRect], w_history := [[], [sampleRect], []], w_historyIndex := 1\<rparr>)"
proof -
  let ?w = "initialWhiteboardState
       \<lparr>elements := [sampleRect], w_history := [[], [sampleRect]], w_historyIndex := 1\<rparr>"
  have inv: "w_historyIndex ?w < length (w_history ?w)"
    by simp
  from clear_resets_standalone_commits_in_room [OF inv,
      of "\<lparr>shapes = [7 :: nat], history = [[], [7]], historyIndex = 1\<rparr>"]
  show ?thesis
    using inv by (simp add: initialState_def initialWhiteboardState_def)
qed

section \<open>Remote snapshots\<close>

text \<open>
  The room component dispatches LOAD_STATE, DELETE_ELEMENTS, ADD_ELEMENT, UNDO, REDO,
  CLEAR_ALL and SET_ZOOM, and never SELECT_ELEMENTS; the reducer is not exported.
  Without SELECT_ELEMENTS the selection stays empty, whatever else is dispatched.
\<close>

lemma w_selection_stays_empty:
  "selectedElementIds w = [] \<Longrightarrow> \<forall>ids. a \<noteq> SELECT_ELEMENTS ids \<Longrightarrow>
   whiteboardReducer w a = Some w' \<Longrightarrow> selectedElementIds w' = []"
  by (cases a) (auto simp: Let_def split: if_splits option.splits)

lemma w_reachable_without_select:
  "w_historyIndex w < length (w_history w) \<Longrightarrow> selectedElementIds w = [] \<Longrightarrow>
   \<forall>ids. SELECT_ELEMENTS ids \<notin> set as \<Longrightarrow>
   \<exists>w'. w_dispatchAll w as = Some w' \<and> w_historyIndex w' < length (w_history w')
        \<and> selectedElementIds w' = []"
proof (induction as arbitrary: w)
  case Nil
  then show ?case by simp
next
  case (Cons a as)
  from w_reducer_total [OF Cons.prems(1)] obtain w1
    where w1: "whiteboardReducer w a = Some w1" ..
  from Cons.prems(1) w1 have inv: "w_historyIndex w1 < length (w_history w1)"
    by (rule w_reducer_invariant)
  from Cons.prems(3) have "\<forall>ids. a \<noteq> SELECT_ELEMENTS ids" by auto
  with Cons.prems(2) w1 have sel: "selectedElementIds w1 = []"
    by (intro w_selection_stays_empty [of w a w1]) simp_all
  from Cons.prems(3) have "\<forall>ids. SELECT_ELEMENTS ids \<notin> set as" by simp
  from Cons.IH [OF inv sel this] w1 show ?case by simp
qed

text \<open>
  Claim C4.  In every state the room board reaches from its initial state by
  actions other than SELECT_ELEMENTS, whatever the local scene is, processing a
  received snapshot (LOAD_STATE, dispatched by the socket handler) succeeds and
  leaves exactly the received elements as the scene, with no trace of the local
  ones, and the empty selection; the history, the cursor, the zoom and the pan are
  as before.  The LOAD_STATE branch writes only the elements: the selection is empty
  afterwards because it is empty in every such state.
\<close>

theorem remote_snapshot_replaces_scene:
  assumes nosel: "\<forall>ids. SELECT_ELEMENTS ids \<notin> set as"
  shows "\<exists>w w'. w_dispatchAll initialWhiteboardState as = Some w
       \<and> whiteboardReducer w (LOAD_STATE data) = Some w'
       \<and> elements w' = data
       \<and> selectedElementIds w' = []
       \<and> w' = w\<lparr>elements := data, selectedElementIds := []\<rparr>
       \<and> (\<forall>rm. wstate rm = w \<longrightarrow> onWhiteboardUpdate data rm = Some (rm\<lparr>wstate := w'\<rparr>))"
proof -
  have "w_historyIndex initialWhiteboardState < length (w_history initialWhiteboardState)"
    and "selectedElementIds initialWhiteboardState = []"
    by (simp_all add: initialWhiteboardState_def)
  from w_reachable_without_select [OF this nosel] obtain w
    where run: "w_dispatchAll initialWhiteboardState as = Some w"
      and sel: "selectedElementIds w = []"
    by blast
  let ?w' = "w\<lparr>elements := data\<rparr>"
  have load: "whiteboardReducer w (LOAD_STATE data) = Some ?w'" by simp
  have same: "?w' = w\<lparr>elements := data, selectedElementIds := []\<rparr>"
    using sel by simp
  have upd: "\<forall>rm. wstate rm = w \<longrightarrow> onWhiteboardUpdate data rm = Some (rm\<lparr>wstate := ?w'\<rparr>)"
    by (simp add: onWhiteboardUpdate_def w_dispatch_def)
  show ?thesis
  proof (intro exI conjI)
    show "w_dispatchAll initialWhiteboardState as = Some w" by (rule run)
    show "whiteboardReducer w (LOAD_STATE data) = Some ?w'" by (rule load)
    show "elements ?w' = data" by simp
    show "selectedElementIds ?w' = []" using sel by simp
    show "?w' = w\<lparr>elements := data, selectedElementIds := []\<rparr>" by (rule same)
    show "\<forall>rm. wstate rm = w \<longrightarrow> onWhiteboardUpdate data rm = Some (rm\<lparr>wstate := ?w'\<rparr>)"
      by (rule upd)
  qed
qed

theorem remote_snapshot_replaces_scene_witness:
  "(\<forall>ids. SELECT_ELEMENTS ids \<notin> set [ADD_ELEMENT sampleRect, CLEAR_ALL, W_UNDO])
   \<and> w_dispatchAll initialWhiteboardState
        [ADD_ELEMENT sampleRect, CLEAR_ALL, W_UNDO, LOAD_STATE [sampleStroke]]
     = Some \<lparr>elements = [sampleStroke], selectedElementIds = [],
             w_history = [[], [sampleRect], []], w_historyIndex = 1,
             zoom = 1, pan = \<lparr>p_x = 0, p_y = 0\<rparr>\<rparr>
   \<and> onWhiteboardUpdate [sampleStroke]
        (initialRoom\<lparr>wstate := \<lparr>elements = [sampleRect], selectedElementIds = [],
             w_history = [[], [sampleRect], []], w_historyIndex = 1,
             zoom = 1, pan = \<lparr>p_x = 0, p_y = 0\<rparr>\<rparr>\<rparr>)
     = Some (initialRoom\<lparr>wstate := \<lparr>elements = [sampleStroke], selectedElementIds = [],
             w_history = [[], [sampleRect], []], w_historyIndex = 1,
             zoom = 1, pan = \<lparr>p_x = 0, p_y = 0\<rparr>\<rparr>\<rparr>)"
proof -
  let ?as = "[ADD_ELEMENT sampleRect, CLEAR_ALL, W_UNDO]"
  let ?w = "\<lparr>elements = [sampleRect], selectedElementIds = [],
             w_history = [[], [sampleRect], []], w_historyIndex = 1,
             zoom = 1, pan = \<lparr>p_x = 0, p_y = 0\<rparr>\<rparr>"
  have h: "\<forall>ids. SELECT_ELEMENTS ids \<notin> set ?as" by simp
  have run: "w_dispatchAll initialWhiteboardState ?as = Some ?w"
    by (simp add: initialWhiteboardState_def Let_def lookup_def)
  from remote_snapshot_replaces_scene [OF h, of "[sampleStroke]"] obtain w w'
    where r: "w_dispatchAll initialWhiteboardState ?as = Some w"
      and l: "whiteboardReducer w (LOAD_STATE [sampleStroke]) = Some w'"
      and e: "w' = w\<lparr>elements := [sampleStroke], selectedElementIds := []\<rparr>"
      and u: "\<forall>rm. wstate rm = w \<longrightarrow>
               onWhiteboardUpdate [sampleStroke] rm = Some (rm\<lparr>wstate := w'\<rparr>)"
    by blast
  from r run have w: "w = ?w" by simp
  have a: "w_dispatchAll initialWhiteboardState (?as @ [LOAD_STATE [sampleStroke]])
      = Some (?w\<lparr>elements := [sampleStroke], selectedElementIds := []\<rparr>)"
    unfolding w_dispatchAll_append run option.case using l e w by simp
  have b: "onWhiteboardUpdate [sampleStroke] (initialRoom\<lparr>wstate := ?w\<rparr>)
      = Some (initialRoom\<lparr>wstate := ?w\<lparr>elements := [sampleStroke], selectedElementIds := []\<rparr>\<rparr>)"
    using u [THEN spec, of "initialRoom\<lparr>wstate := ?w\<rparr>"] e w by simp
  from h a b show ?thesis by simp
qed

section \<open>Zoom bounds\<close>

lemma handleWheel_zoom:
  "editingShapeIndex st = None \<Longrightarrow>
   0.1 \<le> view_zoom (view (handleWheel e st)) \<and> view_zoom (view (handleWheel e st)) \<le> 10"
  by (simp add: handleWheel_def Let_def)

lemma handleWheel_zoom_inv:
  "0.1 \<le> view_zoom (view st) \<and> view_zoom (view st) \<le> 10 \<Longrightarrow>
   0.1 \<le> view_zoom (view (handleWheel e st)) \<and> view_zoom (view (handleWheel e st)) \<le> 10"
  by (cases "editingShapeIndex st") (simp_all add: handleWheel_def Let_def)

lemma fold_handleWheel_zoom:
  "0.1 \<le> view_zoom (view st) \<and> view_zoom (view st) \<le> 10 \<Longrightarrow>
   0.1 \<le> view_zoom (view (fold handleWheel es st)) \<and>
   view_zoom (view (fold handleWheel es st)) \<le> 10"
proof (induction es arbitrary: st)
  case Nil
  then show ?case by simp
next
  case (Cons e es)
  from Cons.prems have "0.1 \<le> view_zoom (view (handleWheel e st)) \<and>
      view_zoom (view (handleWheel e st)) \<le> 10"
    by (rule handleWheel_zoom_inv)
  then show ?case using Cons.IH by simp
qed

lemma w_reducer_zoom_inv:
  "0.1 \<le> zoom w \<and> zoom w \<le> 5 \<Longrightarrow> whiteboardReducer w a = Some w' \<Longrightarrow>
   0.1 \<le> zoom w' \<and> zoom w' \<le> 5"
  by (cases a) (auto simp: Let_def split: if_splits option.splits)

text \<open>
  Claim C8.  Standalone board: a wheel event that is applied (no text is being
  edited; otherwise the handler returns at once and the zoom stays as it is) sets
  the zoom within \<open>[0.1, 10]\<close>, whatever the zoom was and whatever the delta; and
  from a zoom within the bounds, such as the initial zoom 1, every sequence of wheel
  events or zoom-button calls ends within the bounds.  Room board: SET_ZOOM sets the
  zoom within \<open>[0.1, 5]\<close> for every requested value, so do the zoom-in and zoom-out
  handlers, and no action of the reducer takes a zoom within the bounds out of them.
\<close>

theorem zoom_stays_within_bounds:
  "(editingShapeIndex st = None \<longrightarrow>
      0.1 \<le> view_zoom (view (handleWheel e st)) \<and> view_zoom (view (handleWheel e st)) \<le> 10)
   \<and> (0.1 \<le> view_zoom (view st) \<and> view_zoom (view st) \<le> 10 \<longrightarrow>
      0.1 \<le> view_zoom (view (fold handleWheel es st)) \<and>
      view_zoom (view (fold handleWheel es st)) \<le> 10)
   \<and> 0.1 \<le> view_zoom (view (fold handleWheel es initialWhiteboard))
   \<and> view_zoom (view (fold handleWheel es initialWhiteboard)) \<le> 10
   \<and> (\<exists>w'. whiteboardReducer w (SET_ZOOM z) = Some w' \<and> 0.1 \<le> zoom w' \<and> zoom w' \<le> 5)
   \<and> (\<exists>rm'. handleZoomIn rm = Some rm' \<and> 0.1 \<le> zoom (wstate rm') \<and> zoom (wstate rm') \<le> 5)
   \<and> (\<exists>rm'. handleZoomOut rm = Some rm' \<and> 0.1 \<le> zoom (wstate rm') \<and> zoom (wstate rm') \<le> 5)
   \<and> (0.1 \<le> zoom w \<and> zoom w \<le> 5 \<and> whiteboardReducer w a = Some w' \<longrightarrow>
      0.1 \<le> zoom w' \<and> zoom w' \<le> 5)"
proof -
  have init: "0.1 \<le> view_zoom (view initialWhiteboard) \<and> view_zoom (view initialWhiteboard) \<le> 10"
    by (simp add: initialWhiteboard_def)
  have room: "\<exists>w'. whiteboardReducer w (SET_ZOOM z) = Some w' \<and> 0.1 \<le> zoom w' \<and> zoom w' \<le> 5"
    by simp
  have zin: "\<exists>rm'. handleZoomIn rm = Some rm' \<and> 0.1 \<le> zoom (wstate rm') \<and>
      zoom (wstate rm') \<le> 5"
    by (simp add: handleZoomIn_def w_dispatch_def)
  have zout: "\<exists>rm'. handleZoomOut rm = Some rm' \<and> 0.1 \<le> zoom (wstate rm') \<and>
      zoom (wstate rm') \<le> 5"
    by (simp add: handleZoomOut_def w_dispatch_def)
  show ?thesis
    using handleWheel_zoom [of st e] fold_handleWheel_zoom [of st es]
      fold_handleWheel_zoom [OF init, of es] room zin zout w_reducer_zoom_inv [of w a w']
    by blast
qed

theorem zoom_stays_within_bounds_witness:
  "editingShapeIndex initialWhiteboard = None
   \<and> view_zoom (view (handleWheel
        \<lparr>clientX = 100, clientY = 50, rectLeft = 0, rectTop = 0, button = 0,
         movementX = 0, movementY = 0, deltaY = -100000\<rparr>
        (initialWhiteboard\<lparr>view := \<lparr>view_x = 0, view_y = 0, view_zoom = 10\<rparr>\<rparr>))) = 10
   \<and> 0.1 \<le> zoom (initialWhiteboardState\<lparr>zoom := 5\<rparr>)
   \<and> zoom (initialWhiteboardState\<lparr>zoom := 5\<rparr>) \<le> 5
   \<and> whiteboardReducer (initialWhiteboardState\<lparr>zoom := 5\<rparr>) (SET_ZOOM (5 * 1.2))
       = Some (initialWhiteboardState\<lparr>zoom := 5\<rparr>)
   \<and> 0.1 \<le> view_zoom (view (fold handleWheel
        [\<lparr>clientX = 100, clientY = 50, rectLeft = 0, rectTop = 0, button = 0,
          movementX = 0, movementY = 0, deltaY = 3\<rparr>] initialWhiteboard))"
  using zoom_stays_within_bounds [of
      "initialWhiteboard\<lparr>view := \<lparr>view_x = 0, view_y = 0, view_zoom = 10\<rparr>\<rparr>"
      "\<lparr>clientX = 100, clientY = 50, rectLeft = 0, rectTop = 0, button = 0,
        movementX = 0, movementY = 0, deltaY = -100000\<rparr>"
      "[\<lparr>clientX = 100, clientY = 50, rectLeft = 0, rectTop = 0, button = 0,
         movementX = 0, movementY = 0, deltaY = 3\<rparr>]"
      "initialWhiteboardState\<lparr>zoom := 5\<rparr>" "5 * 1.2" initialRoom "SET_ZOOM (5 * 1.2)"
      "initialWhiteboardState\<lparr>zoom := 5\<rparr>"]
  by (simp add: initialWhiteboard_def initialWhiteboardState_def handleWheel_def Let_def)

section \<open>Filtering by index\<close>

lemma filterIndexed_snoc:
  "filterIndexed P (xs @ [x]) = filterIndexed P xs @ (if P x (length xs) then [x] else [])"
  by (simp add: filterIndexed_def)

lemma filterIndexed_filter:
  "(\<And>i. i < length xs \<Longrightarrow> P (xs ! i) i = Q (xs ! i)) \<Longrightarrow> filterIndexed P xs = filter Q xs"
proof (induction xs rule: rev_induct)
  case Nil
  show ?case by (simp add: filterIndexed_def)
next
  case (snoc x xs)
  have "filterIndexed P xs = filter Q xs"
  proof (rule snoc.IH)
    fix i assume "i < length xs"
    with snoc.prems [of i] show "P (xs ! i) i = Q (xs ! i)" by (simp add: nth_append)
  qed
  moreover from snoc.prems [of "length xs"] have "P x (length xs) = Q x" by simp
  ultimately show ?case by (simp add: filterIndexed_snoc)
qed

lemma filterIndexed_remove_index:
  "filterIndexed (\<lambda>_ index. index \<noteq> i) xs = take i xs @ drop (Suc i) xs"
proof (induction xs rule: rev_induct)
  case Nil
  show ?case by (simp add: filterIndexed_def)
next
  case (snoc x xs)
  show ?case
    by (cases "i < length xs") (auto simp: filterIndexed_snoc snoc.IH)
qed

lemma filterIndexed_keep_last:
  assumes "xs \<noteq> []"
  shows "filterIndexed (\<lambda>s idx. idx = length xs - 1 \<or> Q s) xs = filter Q (butlast xs) @ [last xs]"
proof -
  from assms obtain ys y where xs: "xs = ys @ [y]"
    by (metis append_butlast_last_id)
  have "filterIndexed (\<lambda>s idx. idx = length ys \<or> Q s) ys = filter Q ys"
    by (rule filterIndexed_filter) simp
  then show ?thesis
    by (simp add: xs filterIndexed_snoc)
qed

section \<open>Drawing a rectangle or an ellipse\<close>

lemma down_box:
  assumes "editingShapeIndex st = None" "tool st = RECT \<or> tool st = CIRCLE" "button e \<noteq> 1"
  shows "handlePointerDown ctx now e st =
     Some (st\<lparr>heap := heap st @
                [\<lparr>shape_id = now, shape_color = color st, shape_stroke = stroke st,
                  shape_fontSize = fontSize st,
                  bbox = Some \<lparr>bb_x = p_x (getPointerWorldPos e (view st)),
                               bb_y = p_y (getPointerWorldPos e (view st)),
                               bb_width = 0, bb_height = 0\<rparr>,
                  geom = (if tool st = RECT then Rect else Circle)
                           (p_x (getPointerWorldPos e (view st)))
                           (p_y (getPointerWorldPos e (view st))) 0 0\<rparr>],
              state := \<lparr>shapes = shapes (state st) @ [length (heap st)],
                        history = take (historyIndex (state st) + 1) (history (state st))
                                    @ [shapes (state st) @ [length (heap st)]],
                        historyIndex = length (take (historyIndex (state st) + 1) (history (state st)))\<rparr>,
              startPoint := Some (getPointerWorldPos e (view st)),
              action := drawing, isDrawing := True\<rparr>)"
  using assms
  by (auto simp: handlePointerDown_def Let_def newShapeFor_def addNewShape_def dispatch_def
      updateBoundingBox_def)


lemma move_box:
  assumes "startPoint st = Some sp" "action st = drawing" "isDrawing st" "tool st \<noteq> ERASER"
    and "shapes (state st) \<noteq> []" "last (shapes (state st)) = r"
    and "mk = Rect \<or> mk = Circle" "geom (heap st ! r) = mk x y w h"
  shows "handlePointerMove ctx e st =
     Some (st\<lparr>heap := (heap st)[r := updateBoundingBox
               ((heap st ! r)\<lparr>geom := mk x y (p_x (getPointerWorldPos e (view st)) - x)
                                              (p_y (getPointerWorldPos e (view st)) - y)\<rparr>) ctx]\<rparr>)"
  using assms
  by (auto simp: handlePointerMove_def Let_def extendShape_def dispatch_def)

lemma updateBoundingBox_geom:
  "geom (updateBoundingBox sh ctx) = geom sh"
  by (simp add: updateBoundingBox_def)

lemma updateBoundingBox_overwrite:
  "updateBoundingBox ((updateBoundingBox sh ctx)\<lparr>geom := g\<rparr>) ctx = updateBoundingBox (sh\<lparr>geom := g\<rparr>) ctx"
  by (cases g) (simp_all add: updateBoundingBox_def)

lemma moves_box:
  assumes "startPoint st = Some sp" "action st = drawing" "isDrawing st" "tool st \<noteq> ERASER"
    and "shapes (state st) \<noteq> []" "last (shapes (state st)) = r" "r < length (heap st)"
    and "mk = Rect \<or> mk = Circle" "geom (heap st ! r) = mk x y w h"
  shows "pointerMoves ctx es st =
     Some (if es = [] then st
           else st\<lparr>heap := (heap st)[r := updateBoundingBox
               ((heap st ! r)\<lparr>geom := mk x y (p_x (getPointerWorldPos (last es) (view st)) - x)
                                              (p_y (getPointerWorldPos (last es) (view st)) - y)\<rparr>) ctx]\<rparr>)"
  using assms
proof (induction es arbitrary: st w h)
  case Nil
  show ?case by simp
next
  case (Cons e es)
  let ?sh = "updateBoundingBox
               ((heap st ! r)\<lparr>geom := mk x y (p_x (getPointerWorldPos e (view st)) - x)
                                              (p_y (getPointerWorldPos e (view st)) - y)\<rparr>) ctx"
  let ?st1 = "st\<lparr>heap := (heap st)[r := ?sh]\<rparr>"
  have step: "handlePointerMove ctx e st = Some ?st1"
    using Cons.prems by (intro move_box) auto
  have g: "geom (heap ?st1 ! r) = mk x y (p_x (getPointerWorldPos e (view st)) - x)
                                              (p_y (getPointerWorldPos e (view st)) - y)"
    using Cons.prems by (simp add: updateBoundingBox_geom)
  have "pointerMoves ctx es ?st1 =
     Some (if es = [] then ?st1
           else ?st1\<lparr>heap := (heap ?st1)[r := updateBoundingBox
               ((heap ?st1 ! r)\<lparr>geom := mk x y (p_x (getPointerWorldPos (last es) (view ?st1)) - x)
                                              (p_y (getPointerWorldPos (last es) (view ?st1)) - y)\<rparr>) ctx]\<rparr>)"
    using Cons.prems g by (intro Cons.IH) simp_all
  then show ?case
    using step Cons.prems(7) by (simp add: updateBoundingBox_overwrite)
qed

lemma up_box:
  assumes "action st = drawing" "shapes (state st) \<noteq> []" "last (shapes (state st)) = r"
  shows "handlePointerUp ctx st =
     Some (st\<lparr>heap := (heap st)[r := updateBoundingBox (normalizeShape (heap st ! r)) ctx],
              state := \<lparr>shapes = shapes (state st),
                        history = take (historyIndex (state st) + 1) (history (state st))
                                    @ [shapes (state st)],
                        historyIndex = length (take (historyIndex (state st) + 1) (history (state st)))\<rparr>,
              isDrawing := False, action := none, startPoint := None\<rparr>)"
  using assms
  by (simp add: handlePointerUp_def Let_def dispatch_def)


lemma normalized_box:
  assumes "mk = Rect \<or> mk = Circle"
  shows "updateBoundingBox (normalizeShape
           \<lparr>shape_id = i, shape_color = c, shape_stroke = k, shape_fontSize = f,
            bbox = b, geom = mk x0 y0 (x1 - x0) (y1 - y0)\<rparr>) ctx
       = \<lparr>shape_id = i, shape_color = c, shape_stroke = k, shape_fontSize = f,
          bbox = Some \<lparr>bb_x = min x0 x1, bb_y = min y0 y1,
                       bb_width = \<bar>x1 - x0\<bar>, bb_height = \<bar>y1 - y0\<bar>\<rparr>,
          geom = mk (min x0 x1) (min y0 y1) \<bar>x1 - x0\<bar> \<bar>y1 - y0\<bar>\<rparr>"
  using assms
  by (auto simp: normalizeShape_def updateBoundingBox_def Let_def min_def abs_if)

text \<open>
  Claim C5.  A rectangle or ellipse is drawn by a pointer-down at \<open>(x0, y0)\<close>, any
  pointer-moves, and a pointer-up; \<open>(x1, y1)\<close> is the position of the last event
  before the pointer-up.  The gesture commits the scene with the new shape on top,
  and the committed shape has its origin at the minimal corner
  \<open>(min x0 x1, min y0 y1)\<close>, the non-negative width \<open>\<bar>x1 - x0\<bar>\<close> and height
  \<open>\<bar>y1 - y0\<bar>\<close>, a bounding box equal to this geometry, and the id and style it was
  created with.  For a drag that ends up-left of its start the origin is the end
  point; from (10,10) to (-5,-5) the shape has origin (-5,-5), width 15 and height 15.
  The objects that were in the store before are untouched.
\<close>

theorem drag_box_normalized:
  fixes st :: Whiteboard and down :: CanvasEvent and moves :: "CanvasEvent list"
  assumes idle: "editingShapeIndex st = None"
    and box: "tool st = RECT \<or> tool st = CIRCLE"
    and btn: "button down \<noteq> 1"
  defines "x0 \<equiv> p_x (getPointerWorldPos down (view st))"
    and "y0 \<equiv> p_y (getPointerWorldPos down (view st))"
    and "x1 \<equiv> p_x (getPointerWorldPos (last (down # moves)) (view st))"
    and "y1 \<equiv> p_y (getPointerWorldPos (last (down # moves)) (view st))"
  shows "\<exists>st'. drawGesture ctx now down moves st = Some st'
      \<and> shapes (state st') = shapes (state st) @ [length (heap st)]
      \<and> lookup (history (state st')) (historyIndex (state st')) = Some (shapes (state st'))
      \<and> take (length (heap st)) (heap st') = heap st
      \<and> heap st' ! length (heap st) =
          \<lparr>shape_id = now, shape_color = color st, shape_stroke = stroke st,
           shape_fontSize = fontSize st,
           bbox = Some \<lparr>bb_x = min x0 x1, bb_y = min y0 y1,
                        bb_width = \<bar>x1 - x0\<bar>, bb_height = \<bar>y1 - y0\<bar>\<rparr>,
           geom = (if tool st = RECT then Rect else Circle)
                    (min x0 x1) (min y0 y1) \<bar>x1 - x0\<bar> \<bar>y1 - y0\<bar>\<rparr>"
proof -
  let ?mk = "if tool st = RECT then Rect else Circle"
  let ?r = "length (heap st)"
  let ?new = "\<lambda>w h. \<lparr>shape_id = now, shape_color = color st, shape_stroke = stroke st,
               shape_fontSize = fontSize st,
               bbox = Some \<lparr>bb_x = x0, bb_y = y0, bb_width = w, bb_height = h\<rparr>,
               geom = ?mk x0 y0 w h\<rparr>"
  let ?H1 = "take (historyIndex (state st) + 1) (history (state st))
               @ [shapes (state st) @ [?r]]"
  let ?st1 = "st\<lparr>heap := heap st @ [?new 0 0],
              state := \<lparr>shapes = shapes (state st) @ [?r], history = ?H1,
                        historyIndex = length (take (historyIndex (state st) + 1) (history (state st)))\<rparr>,
              startPoint := Some (getPointerWorldPos down (view st)),
              action := drawing, isDrawing := True\<rparr>"
  have mk: "?mk = Rect \<or> ?mk = Circle" by simp
  have d: "handlePointerDown ctx now down st = Some ?st1"
    unfolding x0_def y0_def using idle box btn by (rule down_box)
  let ?st2 = "?st1\<lparr>heap := heap st @ [?new (x1 - x0) (y1 - y0)]\<rparr>"
  have m: "pointerMoves ctx moves ?st1 = Some ?st2"
  proof -
    have "pointerMoves ctx moves ?st1 =
       Some (if moves = [] then ?st1
           else ?st1\<lparr>heap := (heap ?st1)[?r := updateBoundingBox
               ((heap ?st1 ! ?r)\<lparr>geom := ?mk x0 y0
                    (p_x (getPointerWorldPos (last moves) (view ?st1)) - x0)
                    (p_y (getPointerWorldPos (last moves) (view ?st1)) - y0)\<rparr>) ctx]\<rparr>)"
      using box mk by (intro moves_box [where w = 0 and h = 0]) auto
    then show ?thesis
      using box by (cases "moves = []")
        (auto simp: x1_def y1_def x0_def y0_def updateBoundingBox_def)
  qed
  let ?fin = "updateBoundingBox (normalizeShape (?new (x1 - x0) (y1 - y0))) ctx"
  let ?st3 = "?st2\<lparr>heap := heap st @ [?fin],
              state := \<lparr>shapes = shapes (state st) @ [?r], history = ?H1 @ [shapes (state st) @ [?r]],
                        historyIndex = length ?H1\<rparr>,
              isDrawing := False, action := none, startPoint := None\<rparr>"
  have u: "handlePointerUp ctx ?st2 = Some ?st3"
  proof -
    have "handlePointerUp ctx ?st2 =
     Some (?st2\<lparr>heap := (heap ?st2)[?r := updateBoundingBox (normalizeShape (heap ?st2 ! ?r)) ctx],
              state := \<lparr>shapes = shapes (state ?st2),
                        history = take (historyIndex (state ?st2) + 1) (history (state ?st2))
                                    @ [shapes (state ?st2)],
                        historyIndex = length (take (historyIndex (state ?st2) + 1) (history (state ?st2)))\<rparr>,
              isDrawing := False, action := none, startPoint := None\<rparr>)"
      by (rule up_box) simp_all
    moreover have "take (historyIndex (state ?st2) + 1) (history (state ?st2)) = ?H1"
      by (simp del: take_append length_take add: take_all)
    ultimately show ?thesis by (simp del: take_append length_take)
  qed
  have g: "drawGesture ctx now down moves st = Some ?st3"
    unfolding drawGesture_def d m option.case u ..
  have f: "?fin = \<lparr>shape_id = now, shape_color = color st, shape_stroke = stroke st,
           shape_fontSize = fontSize st,
           bbox = Some \<lparr>bb_x = min x0 x1, bb_y = min y0 y1,
                        bb_width = \<bar>x1 - x0\<bar>, bb_height = \<bar>y1 - y0\<bar>\<rparr>,
           geom = ?mk (min x0 x1) (min y0 y1) \<bar>x1 - x0\<bar> \<bar>y1 - y0\<bar>\<rparr>"
    using mk by (rule normalized_box)
  show ?thesis
  proof (intro exI conjI)
    show "drawGesture ctx now down moves st = Some ?st3" by (rule g)
    show "shapes (state ?st3) = shapes (state st) @ [?r]" by simp
    show "lookup (history (state ?st3)) (historyIndex (state ?st3)) = Some (shapes (state ?st3))"
      by (simp add: lookup_def nth_append del: length_take take_append)
    show "take ?r (heap ?st3) = heap st" by simp
    show "heap ?st3 ! ?r = \<lparr>shape_id = now, shape_color = color st, shape_stroke = stroke st,
           shape_fontSize = fontSize st,
           bbox = Some \<lparr>bb_x = min x0 x1, bb_y = min y0 y1,
                        bb_width = \<bar>x1 - x0\<bar>, bb_height = \<bar>y1 - y0\<bar>\<rparr>,
           geom = ?mk (min x0 x1) (min y0 y1) \<bar>x1 - x0\<bar> \<bar>y1 - y0\<bar>\<rparr>"
      using f by simp
  qed
qed


theorem drag_box_normalized_witness:
  "editingShapeIndex (initialWhiteboard\<lparr>tool := RECT\<rparr>) = None
   \<and> (tool (initialWhiteboard\<lparr>tool := RECT\<rparr>) = RECT
        \<or> tool (initialWhiteboard\<lparr>tool := RECT\<rparr>) = CIRCLE)
   \<and> button (pointerAt 10 10) \<noteq> 1
   \<and> drawGesture sampleCtx ''1700000000000'' (pointerAt 10 10)
        [pointerAt 2 3, pointerAt (-5) (-5)] (initialWhiteboard\<lparr>tool := RECT\<rparr>)
     = Some (initialWhiteboard
        \<lparr>tool := RECT,
         heap := [\<lparr>shape_id = ''1700000000000'', shape_color = ''#1e1e1e'',
                   shape_stroke = 4, shape_fontSize = 24,
                   bbox = Some \<lparr>bb_x = -5, bb_y = -5, bb_width = 15, bb_height = 15\<rparr>,
                   geom = Rect (-5) (-5) 15 15\<rparr>],
         state := \<lparr>shapes = [0], history = [[], [0], [0]], historyIndex = 2\<rparr>\<rparr>)"
proof -
  let ?st = "initialWhiteboard\<lparr>tool := RECT\<rparr>"
  have h1: "editingShapeIndex ?st = None" by (simp add: initialWhiteboard_def)
  have h2: "tool ?st = RECT \<or> tool ?st = CIRCLE" by simp
  have h3: "button (pointerAt 10 10) \<noteq> 1" by (simp add: pointerAt_def)
  from drag_box_normalized [OF h1 h2 h3, of sampleCtx "''1700000000000''"
      "[pointerAt 2 3, pointerAt (-5) (-5)]"]
  obtain st' where g: "drawGesture sampleCtx ''1700000000000'' (pointerAt 10 10)
        [pointerAt 2 3, pointerAt (-5) (-5)] ?st = Some st'"
    and sh: "heap st' ! length (heap ?st) =
       \<lparr>shape_id = ''1700000000000'', shape_color = ''#1e1e1e'',
                   shape_stroke = 4, shape_fontSize = 24,
                   bbox = Some \<lparr>bb_x = -5, bb_y = -5, bb_width = 15, bb_height = 15\<rparr>,
                   geom = Rect (-5) (-5) 15 15\<rparr>"
    by (auto simp: initialWhiteboard_def getPointerWorldPos_def pointerAt_def)
  have "drawGesture sampleCtx ''1700000000000'' (pointerAt 10 10)
        [pointerAt 2 3, pointerAt (-5) (-5)] ?st
     = Some (initialWhiteboard
        \<lparr>tool := RECT,
         heap := [\<lparr>shape_id = ''1700000000000'', shape_color = ''#1e1e1e'',
                   shape_stroke = 4, shape_fontSize = 24,
                   bbox = Some \<lparr>bb_x = -5, bb_y = -5, bb_width = 15, bb_height = 15\<rparr>,
                   geom = Rect (-5) (-5) 15 15\<rparr>],
         state := \<lparr>shapes = [0], history = [[], [0], [0]], historyIndex = 2\<rparr>\<rparr>)"
    by (simp add: drawGesture_def handlePointerDown_def handlePointerMove_def
        handlePointerUp_def initialWhiteboard_def initialState_def pointerAt_def
        getPointerWorldPos_def newShapeFor_def addNewShape_def dispatch_def
        updateBoundingBox_def extendShape_def normalizeShape_def Let_def)
  with h1 h2 h3 g sh show ?thesis by simp
qed

section \<open>The eraser\<close>

lemma erased_kinds:
  "erased a shape \<longleftrightarrow>
     (\<exists>b. bbox shape = Some b \<and> intersect a b) \<and> shapeType shape \<in> {RECT, CIRCLE, ARROW, TEXT}"
  by (cases "geom shape") (auto simp: erased_def shapeType_def split: option.splits)

lemma erased_after_push:
  assumes "geom (hp ! r) = Eraser pts"
  shows "erased a (hp[r := (hp ! r)\<lparr>geom := Eraser (pts @ [pos])\<rparr>] ! s) = erased a (hp ! s)"
proof (cases "s = r \<and> r < length hp")
  case True
  with assms show ?thesis by (simp add: erased_def shapeType_def split: option.splits)
next
  case False
  then show ?thesis by (cases "s = r") (simp_all add: list_update_beyond)
qed

lemma eraser_move:
  assumes "startPoint st = Some sp" "action st = drawing" "tool st = ERASER" "isDrawing st"
    and "shapes (state st) \<noteq> []"
    and "geom (heap st ! last (shapes (state st))) = Eraser pts"
  shows "handlePointerMove ctx e st =
     Some (st\<lparr>heap := (heap st)[last (shapes (state st)) :=
                 (heap st ! last (shapes (state st)))
                   \<lparr>geom := Eraser (pts @ [getPointerWorldPos e (view st)])\<rparr>],
              state := (state st)\<lparr>shapes :=
                 filter (\<lambda>s. \<not> erased (eraserBBox (getPointerWorldPos e (view st)) (eraserStroke st))
                                  (heap st ! s))
                   (butlast (shapes (state st))) @ [last (shapes (state st))]\<rparr>\<rparr>)"
proof -
  let ?r = "last (shapes (state st))"
  let ?pos = "getPointerWorldPos e (view st)"
  let ?a = "eraserBBox ?pos (eraserStroke st)"
  let ?h = "(heap st)[?r := (heap st ! ?r)\<lparr>geom := Eraser (pts @ [?pos])\<rparr>]"
  have eq: "\<And>s. erased ?a (?h ! s) = erased ?a (heap st ! s)"
    using assms(6) by (rule erased_after_push)
  have F: "filterIndexed
          (\<lambda>s idx. idx = length (shapes (state st)) - 1 \<or> \<not> erased ?a (?h ! s))
          (shapes (state st))
      = filter (\<lambda>s. \<not> erased ?a (heap st ! s)) (butlast (shapes (state st))) @ [?r]"
    unfolding eq using assms(5) by (rule filterIndexed_keep_last)
  show ?thesis
    using assms by (simp add: handlePointerMove_def Let_def dispatch_def F del: One_nat_def)
qed


lemma find_snoc:
  "find P (xs @ [x]) = (case find P xs of None \<Rightarrow> (if P x then Some x else None) | Some y \<Rightarrow> Some y)"
  by (induction xs) auto

lemma findLast_topmost:
  "find P (rev xs) = Some hit \<Longrightarrow>
   \<exists>ys zs. xs = ys @ hit # zs \<and> P hit \<and> (\<forall>z\<in>set zs. \<not> P z)"
proof (induction xs)
  case Nil
  then show ?case by simp
next
  case (Cons x xs)
  show ?case
  proof (cases "find P (rev xs)")
    case None
    with Cons.prems have "P x" "hit = x"
      by (auto simp: find_snoc split: if_splits)
    moreover from None have "\<forall>z\<in>set xs. \<not> P z"
      by (simp add: find_None_iff)
    ultimately have "x # xs = [] @ hit # xs \<and> P hit \<and> (\<forall>z\<in>set xs. \<not> P z)"
      by simp
    then show ?thesis by blast
  next
    case (Some y)
    with Cons.prems have "find P (rev xs) = Some hit"
      by (simp add: find_snoc)
    from Cons.IH [OF this] obtain ys zs
      where "xs = ys @ hit # zs" "P hit" "\<forall>z\<in>set zs. \<not> P z" by blast
    then have "x # xs = (x # ys) @ hit # zs \<and> P hit \<and> (\<forall>z\<in>set zs. \<not> P z)"
      by simp
    then show ?thesis by blast
  qed
qed

lemma sqrt_less_10: "sqrt v < 10 \<longleftrightarrow> v < 100"
proof -
  have "sqrt 100 = 10"
    by (rule real_sqrt_unique) simp_all
  with real_sqrt_less_iff [of v 100] show ?thesis by simp
qed

text \<open>
  Claim C3, as stated, fails on the room board.  There the eraser acts on
  pointer-down: with a rectangle and, above it, a freehand stroke in the scene, a
  click at (5,5), on the stroke's first point, deletes the freehand stroke from the
  store.
\<close>

theorem room_eraser_deletes_freehand_counterexample:
  "el_type sampleStroke = FREEHAND
   \<and> handleMouseDown ''1700000000002'' (pointerAt 5 5) sampleRoom
     = Some (sampleRoom\<lparr>wstate := initialWhiteboardState
        \<lparr>elements := [sampleRect],
         w_history := [[], [sampleRect], [sampleRect, sampleStroke], [sampleRect]],
         w_historyIndex := 3\<rparr>\<rparr>)"
  by (simp add: handleMouseDown_def sampleRoom_def initialRoom_def initialWhiteboardState_def
      getMousePos_def pointerAt_def sampleStroke_def sampleRect_def eraserHits_def
      w_dispatch_def Let_def)

text \<open>
  Claim C3, amended.  Standalone board: while the eraser stroke is being drawn (the
  eraser tool, the drawing state, the stroke as last shape of the scene), a
  pointer-move removes from the scene exactly the shapes below the stroke that
  have a bounding box overlapping the eraser's box around the pointer and are of a
  rigid kind (rectangle, circle, arrow or text); the order of the others and the
  history are kept, every freehand or eraser shape of the scene is still in it,
  and no shape changes its kind or box.  Room board: the eraser acts on
  pointer-down; it deletes the topmost element that its hit test accepts, of
  whatever kind, a freehand stroke included, together with any element of the same
  id, and nothing when no element is hit.
\<close>

theorem eraser_pass_removes_rigid_shapes:
  fixes st :: Whiteboard and e :: CanvasEvent and rm :: Room and e' :: CanvasEvent
  assumes sp: "startPoint st = Some sp"
    and act: "action st = drawing" and tl: "tool st = ERASER" and drw: "isDrawing st"
    and ne: "shapes (state st) \<noteq> []"
    and er: "geom (heap st ! last (shapes (state st))) = Eraser pts"
    and rtl: "currentTool rm = ERASER"
  defines "a \<equiv> eraserBBox (getPointerWorldPos e (view st)) (eraserStroke st)"
    and "p \<equiv> getMousePos e' (wstate rm)"
  shows "(\<exists>st'. handlePointerMove ctx e st = Some st'
       \<and> shapes (state st') =
           filter (\<lambda>s. \<not> erased a (heap st ! s)) (butlast (shapes (state st)))
             @ [last (shapes (state st))]
       \<and> history (state st') = history (state st)
       \<and> historyIndex (state st') = historyIndex (state st)
       \<and> (\<forall>s \<in> set (shapes (state st)).
            shapeType (heap st ! s) = FREEHAND \<or> shapeType (heap st ! s) = ERASER
            \<longrightarrow> s \<in> set (shapes (state st')))
       \<and> (\<forall>s \<in> set (shapes (state st)).
            shapeType (heap st' ! s) = shapeType (heap st ! s)
            \<and> bbox (heap st' ! s) = bbox (heap st ! s)))
   \<and> (\<forall>shape. erased a shape \<longleftrightarrow>
         (\<exists>b. bbox shape = Some b \<and> intersect a b)
         \<and> shapeType shape \<in> {RECT, CIRCLE, ARROW, TEXT})
   \<and> (find (eraserHits p) (rev (elements (wstate rm))) = None
        \<longrightarrow> handleMouseDown now e' rm = Some rm)
   \<and> (\<forall>hit. find (eraserHits p) (rev (elements (wstate rm))) = Some hit
        \<longrightarrow> (\<exists>rm' below above. handleMouseDown now e' rm = Some rm'
              \<and> elements (wstate rm') =
                  filter (\<lambda>el. el_id el \<noteq> el_id hit) (elements (wstate rm))
              \<and> elements (wstate rm) = below @ hit # above
              \<and> eraserHits p hit \<and> (\<forall>el \<in> set above. \<not> eraserHits p el)))"
proof -
  let ?S = "shapes (state st)"
  let ?r = "last ?S"
  let ?st' = "st\<lparr>heap := (heap st)[?r := (heap st ! ?r)
                   \<lparr>geom := Eraser (pts @ [getPointerWorldPos e (view st)])\<rparr>],
              state := (state st)\<lparr>shapes :=
                 filter (\<lambda>s. \<not> erased a (heap st ! s)) (butlast ?S) @ [?r]\<rparr>\<rparr>"
  have mv: "handlePointerMove ctx e st = Some ?st'"
    unfolding a_def using sp act tl drw ne er by (rule eraser_move)
  have S: "?S = butlast ?S @ [?r]"
    using ne by simp
  have keep: "s \<in> set (shapes (state ?st'))"
    if "s \<in> set ?S" "shapeType (heap st ! s) = FREEHAND \<or> shapeType (heap st ! s) = ERASER" for s
  proof -
    from that(2) have "\<not> erased a (heap st ! s)"
      by (auto simp: erased_def split: option.splits)
    moreover from that(1) S have "s \<in> set (butlast ?S) \<or> s = ?r"
      by (metis Un_iff insert_iff list.set(2) empty_iff list.set(1) set_append)
    ultimately show ?thesis by auto
  qed
  have same: "shapeType (heap ?st' ! s) = shapeType (heap st ! s)
      \<and> bbox (heap ?st' ! s) = bbox (heap st ! s)" for s
  proof (cases "s = ?r \<and> ?r < length (heap st)")
    case True
    with er show ?thesis by (simp add: shapeType_def)
  next
    case False
    then show ?thesis by (cases "s = ?r") (simp_all add: list_update_beyond)
  qed
  have standalone: "\<exists>st'. handlePointerMove ctx e st = Some st'
       \<and> shapes (state st') = filter (\<lambda>s. \<not> erased a (heap st ! s)) (butlast ?S) @ [?r]
       \<and> history (state st') = history (state st)
       \<and> historyIndex (state st') = historyIndex (state st)
       \<and> (\<forall>s \<in> set ?S.
            shapeType (heap st ! s) = FREEHAND \<or> shapeType (heap st ! s) = ERASER
            \<longrightarrow> s \<in> set (shapes (state st')))
       \<and> (\<forall>s \<in> set ?S.
            shapeType (heap st' ! s) = shapeType (heap st ! s)
            \<and> bbox (heap st' ! s) = bbox (heap st ! s))"
  proof (intro exI conjI)
    show "handlePointerMove ctx e st = Some ?st'" by (rule mv)
    show "shapes (state ?st') = filter (\<lambda>s. \<not> erased a (heap st ! s)) (butlast ?S) @ [?r]"
      by simp
    show "history (state ?st') = history (state st)" by simp
    show "historyIndex (state ?st') = historyIndex (state st)" by simp
    show "\<forall>s \<in> set ?S.
            shapeType (heap st ! s) = FREEHAND \<or> shapeType (heap st ! s) = ERASER
            \<longrightarrow> s \<in> set (shapes (state ?st'))"
      using keep by blast
    show "\<forall>s \<in> set ?S. shapeType (heap ?st' ! s) = shapeType (heap st ! s)
            \<and> bbox (heap ?st' ! s) = bbox (heap st ! s)"
      using same by blast
  qed
  have miss: "find (eraserHits p) (rev (elements (wstate rm))) = None
        \<longrightarrow> handleMouseDown now e' rm = Some rm"
    using rtl by (simp add: handleMouseDown_def Let_def p_def)
  have hit: "\<exists>rm' below above. handleMouseDown now e' rm = Some rm'
              \<and> elements (wstate rm') =
                  filter (\<lambda>el. el_id el \<noteq> el_id hit) (elements (wstate rm))
              \<and> elements (wstate rm) = below @ hit # above
              \<and> eraserHits p hit \<and> (\<forall>el \<in> set above. \<not> eraserHits p el)"
    if h: "find (eraserHits p) (rev (elements (wstate rm))) = Some hit" for hit
  proof -
    from findLast_topmost [OF h] obtain below above
      where "elements (wstate rm) = below @ hit # above" "eraserHits p hit"
        "\<forall>el \<in> set above. \<not> eraserHits p el" by blast
    moreover have "\<exists>rm'. handleMouseDown now e' rm = Some rm'
        \<and> elements (wstate rm') = filter (\<lambda>el. el_id el \<noteq> el_id hit) (elements (wstate rm))"
      using rtl h by (simp add: handleMouseDown_def Let_def p_def w_dispatch_def)
    ultimately show ?thesis by blast
  qed
  from standalone erased_kinds miss hit show ?thesis by blast
qed


theorem eraser_pass_removes_rigid_shapes_witness:
  "startPoint sampleBoard = Some \<lparr>p_x = 100, p_y = 100\<rparr>
   \<and> action sampleBoard = drawing \<and> tool sampleBoard = ERASER \<and> isDrawing sampleBoard
   \<and> shapes (state sampleBoard) \<noteq> []
   \<and> geom (heap sampleBoard ! last (shapes (state sampleBoard)))
       = Eraser [\<lparr>p_x = 100, p_y = 100\<rparr>]
   \<and> currentTool sampleRoom = ERASER
   \<and> map_option (\<lambda>st'. shapes (state st'))
        (handlePointerMove sampleCtx (pointerAt 10 10) sampleBoard) = Some [1, 2]
   \<and> map_option (\<lambda>rm'. elements (wstate rm'))
        (handleMouseDown ''1700000000002'' (pointerAt 30 5) sampleRoom) = Some [sampleStroke]"
proof -
  have h: "startPoint sampleBoard = Some \<lparr>p_x = 100, p_y = 100\<rparr>"
    "action sampleBoard = drawing" "tool sampleBoard = ERASER" "isDrawing sampleBoard"
    "shapes (state sampleBoard) \<noteq> []"
    "geom (heap sampleBoard ! last (shapes (state sampleBoard)))
       = Eraser [\<lparr>p_x = 100, p_y = 100\<rparr>]"
    "currentTool sampleRoom = ERASER"
    by (simp_all add: sampleBoard_def sampleRoom_def)
  have erasedRect: "erased (eraserBBox \<lparr>p_x = 10, p_y = 10\<rparr> 12) (heap sampleBoard ! 0)"
    by (simp add: erased_def eraserBBox_def intersect_def sampleBoard_def shapeType_def)
  have keptStroke: "\<not> erased (eraserBBox \<lparr>p_x = 10, p_y = 10\<rparr> 12) (heap sampleBoard ! 1)"
    by (simp add: erased_def eraserBBox_def intersect_def sampleBoard_def shapeType_def)
  have pos: "getPointerWorldPos (pointerAt 10 10) (view sampleBoard) = \<lparr>p_x = 10, p_y = 10\<rparr>"
    "eraserStroke sampleBoard = 12"
    by (simp_all add: getPointerWorldPos_def pointerAt_def sampleBoard_def initialWhiteboard_def)
  have sh: "shapes (state sampleBoard) = [0, 1, 2]"
    by (simp add: sampleBoard_def)
  have miss: "\<not> eraserHits (getMousePos (pointerAt 30 5) (wstate sampleRoom)) sampleStroke"
    by (simp add: eraserHits_def getMousePos_def pointerAt_def sampleRoom_def sampleStroke_def
        initialWhiteboardState_def sqrt_less_10)
  have hitRect: "eraserHits (getMousePos (pointerAt 30 5) (wstate sampleRoom)) sampleRect"
    by (simp add: eraserHits_def getMousePos_def pointerAt_def sampleRoom_def sampleRect_def
        initialWhiteboardState_def Math_min_def Math_max_def)
  have els: "elements (wstate sampleRoom) = [sampleRect, sampleStroke]"
    by (simp add: sampleRoom_def)
  have ids: "el_id sampleStroke \<noteq> el_id sampleRect"
    by (simp add: sampleRect_def sampleStroke_def)
  have found: "find (eraserHits (getMousePos (pointerAt 30 5) (wstate sampleRoom)))
      (rev (elements (wstate sampleRoom))) = Some sampleRect"
    using miss hitRect by (simp add: els)
  note T = eraser_pass_removes_rigid_shapes [OF h, where ctx = sampleCtx
      and e = "pointerAt 10 10" and now = "''1700000000002''" and e' = "pointerAt 30 5"]
  from T [THEN conjunct1] obtain st'
    where mv: "handlePointerMove sampleCtx (pointerAt 10 10) sampleBoard = Some st'"
      and shp: "shapes (state st') =
        filter (\<lambda>s. \<not> erased (eraserBBox (getPointerWorldPos (pointerAt 10 10)
                         (view sampleBoard)) (eraserStroke sampleBoard)) (heap sampleBoard ! s))
          (butlast (shapes (state sampleBoard))) @ [last (shapes (state sampleBoard))]"
    by blast
  have standalone: "map_option (\<lambda>st'. shapes (state st'))
        (handlePointerMove sampleCtx (pointerAt 10 10) sampleBoard) = Some [1, 2]"
    using erasedRect keptStroke by (simp add: mv shp pos sh)
  from T [THEN conjunct2, THEN conjunct2, THEN conjunct2, THEN spec, THEN mp, OF found]
  obtain rm' where md: "handleMouseDown ''1700000000002'' (pointerAt 30 5) sampleRoom = Some rm'"
    and elp: "elements (wstate rm') =
        filter (\<lambda>el. el_id el \<noteq> el_id sampleRect) (elements (wstate sampleRoom))"
    by blast
  have room: "map_option (\<lambda>rm'. elements (wstate rm'))
        (handleMouseDown ''1700000000002'' (pointerAt 30 5) sampleRoom) = Some [sampleStroke]"
    using ids by (simp add: md elp els)
  from h standalone room show ?thesis by simp
qed

section \<open>Ending a text edit\<close>

lemma trim_empty_iff: "trim t = [] \<longleftrightarrow> (\<forall>c \<in> set t. isWhiteSpace c)"
proof
  assume "trim t = []"
  then have all: "\<forall>c \<in> set (dropWhile isWhiteSpace t). isWhiteSpace c"
    by (simp add: trim_def dropWhile_eq_Nil_conv)
  have "dropWhile isWhiteSpace t = []"
  proof (rule ccontr)
    assume ne: "dropWhile isWhiteSpace t \<noteq> []"
    then have "\<not> isWhiteSpace (hd (dropWhile isWhiteSpace t))"
      by (rule hd_dropWhile)
    moreover from ne have "hd (dropWhile isWhiteSpace t) \<in> set (dropWhile isWhiteSpace t)"
      by simp
    ultimately show False using all by blast
  qed
  then show "\<forall>c \<in> set t. isWhiteSpace c"
    by (simp add: dropWhile_eq_Nil_conv)
next
  assume "\<forall>c \<in> set t. isWhiteSpace c"
  then have d: "dropWhile isWhiteSpace t = []"
    by simp
  show "trim t = []" unfolding trim_def d by simp
qed

lemma finish_blank:
  assumes "editingShapeIndex st = Some i" "i < length (shapes (state st))"
    and "isBlankText (heap st ! (shapes (state st) ! i))"
  shows "finishEditingText (Some ctx) st =
     Some (st\<lparr>state := \<lparr>shapes = take i (shapes (state st)) @ drop (Suc i) (shapes (state st)),
                        history = take (historyIndex (state st) + 1) (history (state st))
                          @ [take i (shapes (state st)) @ drop (Suc i) (shapes (state st))],
                        historyIndex =
                          length (take (historyIndex (state st) + 1) (history (state st)))\<rparr>,
              editingShapeIndex := None\<rparr>)"
  using assms
  by (simp add: finishEditingText_def Let_def lookup_def dispatch_def filterIndexed_remove_index)

lemma finish_nonblank:
  assumes "editingShapeIndex st = Some i" "i < length (shapes (state st))"
    and "\<not> isBlankText (heap st ! (shapes (state st) ! i))"
  shows "finishEditingText (Some ctx) st =
     Some (st\<lparr>heap := (heap st)[shapes (state st) ! i :=
                 updateBoundingBox (heap st ! (shapes (state st) ! i)) ctx],
              state := \<lparr>shapes = shapes (state st),
                        history = take (historyIndex (state st) + 1) (history (state st))
                          @ [shapes (state st)],
                        historyIndex =
                          length (take (historyIndex (state st) + 1) (history (state st)))\<rparr>,
              editingShapeIndex := None\<rparr>)"
  using assms
  by (simp add: finishEditingText_def Let_def lookup_def dispatch_def)

lemma distinct_remove_index:
  "distinct xs \<Longrightarrow> i < length xs \<Longrightarrow> xs ! i \<notin> set (take i xs @ drop (Suc i) xs)"
  by (metis distinct_append distinct.simps(2) id_take_nth_drop disjoint_insert(1)
      list.set(2) set_append Un_iff)


text \<open>
  Claim C6, as stated, fails in two places.  In the standalone board the session
  that starts with the text tool at (10,10) and ends by blur with nothing typed
  leaves the snapshots \<open>[[], [0], []]\<close>: the scene committed at the end is empty,
  but the snapshot \<open>[0]\<close> committed at pointer-down holds the text shape with empty
  content.  In the room board a blur with the content \<open>hi\<close> commits a text element
  that has no bounding box.
\<close>

theorem empty_text_committed_counterexample:
  "textSession sampleCtx ''1700000000400'' (pointerAt 10 10) []
       (initialWhiteboard\<lparr>tool := TEXT\<rparr>)
     = Some (sampleEditing
         \<lparr>state := \<lparr>shapes = [], history = [[], [0], []], historyIndex = 2\<rparr>,
          editingShapeIndex := None\<rparr>)
   \<and> geom (heap sampleEditing ! 0) = Text 10 10 []
   \<and> onBlurInput ''1700000000500'' sampleTyping
     = Some (initialRoom
         \<lparr>currentTool := TEXT,
          wstate := initialWhiteboardState
            \<lparr>elements := [\<lparr>el_id = ''1700000000500'', el_type = TEXT,
                            el_points = [\<lparr>p_x = 3, p_y = 4\<rparr>],
                            el_color = ''#1e1e1e'', el_strokeWidth = 1,
                            el_fontSize = Some 16, el_text = Some ''hi'',
                            el_bbox = None\<rparr>],
             w_history := [[], [\<lparr>el_id = ''1700000000500'', el_type = TEXT,
                            el_points = [\<lparr>p_x = 3, p_y = 4\<rparr>],
                            el_color = ''#1e1e1e'', el_strokeWidth = 1,
                            el_fontSize = Some 16, el_text = Some ''hi'',
                            el_bbox = None\<rparr>]],
             w_historyIndex := 1\<rparr>\<rparr>)"
proof -
  have a: "textSession sampleCtx ''1700000000400'' (pointerAt 10 10) []
       (initialWhiteboard\<lparr>tool := TEXT\<rparr>)
     = Some (sampleEditing
         \<lparr>state := \<lparr>shapes = [], history = [[], [0], []], historyIndex = 2\<rparr>,
          editingShapeIndex := None\<rparr>)"
    by (simp add: textSession_def handlePointerDown_def finishEditingText_def
        initialWhiteboard_def initialState_def sampleEditing_def pointerAt_def
        getPointerWorldPos_def addNewShape_def dispatch_def updateBoundingBox_def
        sampleCtx_def isBlankText_def trim_def lookup_def filterIndexed_def Let_def)
  have b: "geom (heap sampleEditing ! 0) = Text 10 10 []"
    by (simp add: sampleEditing_def)
  have "trim ''hi'' \<noteq> []"
    by (simp add: trim_empty_iff isWhiteSpace_def)
  then have c: "onBlurInput ''1700000000500'' sampleTyping
     = Some (initialRoom
         \<lparr>currentTool := TEXT,
          wstate := initialWhiteboardState
            \<lparr>elements := [\<lparr>el_id = ''1700000000500'', el_type = TEXT,
                            el_points = [\<lparr>p_x = 3, p_y = 4\<rparr>],
                            el_color = ''#1e1e1e'', el_strokeWidth = 1,
                            el_fontSize = Some 16, el_text = Some ''hi'',
                            el_bbox = None\<rparr>],
             w_history := [[], [\<lparr>el_id = ''1700000000500'', el_type = TEXT,
                            el_points = [\<lparr>p_x = 3, p_y = 4\<rparr>],
                            el_color = ''#1e1e1e'', el_strokeWidth = 1,
                            el_fontSize = Some 16, el_text = Some ''hi'',
                            el_bbox = None\<rparr>]],
             w_historyIndex := 1\<rparr>\<rparr>)"
    by (simp add: onBlurInput_def sampleTyping_def initialRoom_def initialWhiteboardState_def
        w_dispatch_def Let_def)
  from a b c show ?thesis by blast
qed

text \<open>
  Claim C6, amended.  Standalone board, for an edit of the shape at the editing
  index: when its content is empty or only white space, blur or Escape commits the
  scene with the position of that shape removed (so the shape is no longer in the
  displayed and committed scene, each object occurring once in a scene; the store
  is untouched); otherwise it commits the scene as it is, with the bounding box of
  the text shape recomputed.  Room board: a blur with empty or
  white-space content commits nothing and closes the input; a blur with other
  content commits the scene extended by a text element with that content, which
  carries no bounding box.
\<close>

theorem text_session_end:
  fixes st :: Whiteboard and rm :: Room
  assumes ed: "editingShapeIndex st = Some i"
    and inr: "i < length (shapes (state st))"
    and obj: "shapes (state st) ! i < length (heap st)"
    and inp: "textInput rm = Some ti"
  defines "r \<equiv> shapes (state st) ! i"
  shows "(isBlankText (heap st ! r) \<longrightarrow>
       (\<exists>st'. finishEditingText (Some ctx) st = Some st'
          \<and> shapes (state st') = take i (shapes (state st)) @ drop (Suc i) (shapes (state st))
          \<and> (distinct (shapes (state st)) \<longrightarrow> r \<notin> set (shapes (state st')))
          \<and> spec_commit (history (state st)) (historyIndex (state st)) (shapes (state st'))
                (history (state st')) (historyIndex (state st'))
          \<and> heap st' = heap st \<and> editingShapeIndex st' = None))
   \<and> (\<not> isBlankText (heap st ! r) \<longrightarrow>
       (\<exists>st'. finishEditingText (Some ctx) st = Some st'
          \<and> shapes (state st') = shapes (state st)
          \<and> spec_commit (history (state st)) (historyIndex (state st)) (shapes (state st'))
                (history (state st')) (historyIndex (state st'))
          \<and> heap st' = (heap st)[r := updateBoundingBox (heap st ! r) ctx]
          \<and> heap st' ! r = updateBoundingBox (heap st ! r) ctx
          \<and> editingShapeIndex st' = None))
   \<and> (\<forall>x y t. geom (heap st ! r) = Text x y t \<longrightarrow>
         (isBlankText (heap st ! r) \<longleftrightarrow> (\<forall>c \<in> set t. isWhiteSpace c)))
   \<and> ((\<forall>c \<in> set (ti_value ti). isWhiteSpace c) \<longrightarrow>
         onBlurInput now rm = Some (rm\<lparr>textInput := None\<rparr>))
   \<and> (\<not> (\<forall>c \<in> set (ti_value ti). isWhiteSpace c) \<longrightarrow>
       (\<exists>rm'. onBlurInput now rm = Some rm'
          \<and> elements (wstate rm') = elements (wstate rm) @
               [\<lparr>el_id = now, el_type = TEXT,
                 el_points = [\<lparr>p_x = ti_x ti, p_y = ti_y ti\<rparr>],
                 el_color = currentColor rm, el_strokeWidth = 1,
                 el_fontSize = Some (currentFontSize rm),
                 el_text = Some (ti_value ti), el_bbox = None\<rparr>]
          \<and> w_history (wstate rm') =
               take (w_historyIndex (wstate rm) + 1) (w_history (wstate rm))
                 @ [elements (wstate rm')]
          \<and> w_historyIndex (wstate rm') = w_historyIndex (wstate rm) + 1
          \<and> textInput rm' = None))"
proof -
  let ?S = "shapes (state st)"
  let ?cut = "take i ?S @ drop (Suc i) ?S"
  have blank: "\<exists>st'. finishEditingText (Some ctx) st = Some st'
          \<and> shapes (state st') = ?cut
          \<and> (distinct ?S \<longrightarrow> r \<notin> set (shapes (state st')))
          \<and> spec_commit (history (state st)) (historyIndex (state st)) (shapes (state st'))
                (history (state st')) (historyIndex (state st'))
          \<and> heap st' = heap st \<and> editingShapeIndex st' = None"
    if b: "isBlankText (heap st ! r)"
  proof -
    from b have "isBlankText (heap st ! (?S ! i))" by (simp add: r_def)
    from finish_blank [OF ed inr this, of ctx]
    show ?thesis
      using inr distinct_remove_index [of ?S i] by (simp add: spec_commit_intro r_def)
  qed
  have nonblank: "\<exists>st'. finishEditingText (Some ctx) st = Some st'
          \<and> shapes (state st') = ?S
          \<and> spec_commit (history (state st)) (historyIndex (state st)) (shapes (state st'))
                (history (state st')) (historyIndex (state st'))
          \<and> heap st' = (heap st)[r := updateBoundingBox (heap st ! r) ctx]
          \<and> heap st' ! r = updateBoundingBox (heap st ! r) ctx
          \<and> editingShapeIndex st' = None"
    if nb: "\<not> isBlankText (heap st ! r)"
  proof -
    from nb have "\<not> isBlankText (heap st ! (?S ! i))" by (simp add: r_def)
    from finish_nonblank [OF ed inr this, of ctx]
    show ?thesis
      using obj by (simp add: spec_commit_intro r_def)
  qed
  have ws: "isBlankText (heap st ! r) \<longleftrightarrow> (\<forall>c \<in> set t. isWhiteSpace c)"
    if "geom (heap st ! r) = Text x y t" for x y t
    using that by (simp add: isBlankText_def trim_empty_iff)
  have rblank: "onBlurInput now rm = Some (rm\<lparr>textInput := None\<rparr>)"
    if "\<forall>c \<in> set (ti_value ti). isWhiteSpace c"
    using that inp by (simp add: onBlurInput_def trim_empty_iff)
  have rnonblank: "\<exists>rm'. onBlurInput now rm = Some rm'
          \<and> elements (wstate rm') = elements (wstate rm) @
               [\<lparr>el_id = now, el_type = TEXT,
                 el_points = [\<lparr>p_x = ti_x ti, p_y = ti_y ti\<rparr>],
                 el_color = currentColor rm, el_strokeWidth = 1,
                 el_fontSize = Some (currentFontSize rm),
                 el_text = Some (ti_value ti), el_bbox = None\<rparr>]
          \<and> w_history (wstate rm') =
               take (w_historyIndex (wstate rm) + 1) (w_history (wstate rm))
                 @ [elements (wstate rm')]
          \<and> w_historyIndex (wstate rm') = w_historyIndex (wstate rm) + 1
          \<and> textInput rm' = None"
    if "\<not> (\<forall>c \<in> set (ti_value ti). isWhiteSpace c)"
  proof -
    from that have "trim (ti_value ti) \<noteq> []" by (simp add: trim_empty_iff)
    with inp show ?thesis
      by (simp add: onBlurInput_def w_dispatch_def Let_def)
  qed
  from blank nonblank ws rblank rnonblank show ?thesis by blast
qed


theorem text_session_end_witness:
  "editingShapeIndex sampleEditing = Some 0
   \<and> 0 < length (shapes (state sampleEditing))
   \<and> shapes (state sampleEditing) ! 0 < length (heap sampleEditing)
   \<and> textInput (sampleTyping\<lparr>textInput := Some \<lparr>ti_x = 3, ti_y = 4, ti_value = ''  ''\<rparr>\<rparr>)
       = Some \<lparr>ti_x = 3, ti_y = 4, ti_value = ''  ''\<rparr>
   \<and> map_option (\<lambda>st'. shapes (state st')) (finishEditingText (Some sampleCtx) sampleEditing)
       = Some []
   \<and> onBlurInput ''1700000000500''
         (sampleTyping\<lparr>textInput := Some \<lparr>ti_x = 3, ti_y = 4, ti_value = ''  ''\<rparr>\<rparr>)
       = Some (sampleTyping\<lparr>textInput := None\<rparr>)"
proof -
  let ?rm = "sampleTyping\<lparr>textInput := Some \<lparr>ti_x = 3, ti_y = 4, ti_value = ''  ''\<rparr>\<rparr>"
  have h: "editingShapeIndex sampleEditing = Some 0"
    "0 < length (shapes (state sampleEditing))"
    "shapes (state sampleEditing) ! 0 < length (heap sampleEditing)"
    "textInput ?rm = Some \<lparr>ti_x = 3, ti_y = 4, ti_value = ''  ''\<rparr>"
    by (simp_all add: sampleEditing_def)
  note T = text_session_end [OF h, where ctx = sampleCtx and now = "''1700000000500''"]
  have blank: "isBlankText (heap sampleEditing ! (shapes (state sampleEditing) ! 0))"
    by (simp add: sampleEditing_def isBlankText_def trim_def)
  from T [THEN conjunct1, THEN mp, OF blank] obtain st'
    where f: "finishEditingText (Some sampleCtx) sampleEditing = Some st'"
      and sh: "shapes (state st') = take 0 (shapes (state sampleEditing))
                 @ drop (Suc 0) (shapes (state sampleEditing))"
    by blast
  have cut: "shapes (state sampleEditing) = [0]"
    by (simp add: sampleEditing_def)
  have standalone: "map_option (\<lambda>st'. shapes (state st'))
      (finishEditingText (Some sampleCtx) sampleEditing) = Some []"
    by (simp add: f sh cut)
  have ws: "\<forall>c \<in> set (ti_value \<lparr>ti_x = 3, ti_y = 4, ti_value = ''  ''\<rparr>). isWhiteSpace c"
    by (simp add: isWhiteSpace_def)
  from T [THEN conjunct2, THEN conjunct2, THEN conjunct2, THEN conjunct1, THEN mp, OF ws]
  have room: "onBlurInput ''1700000000500'' ?rm = Some (sampleTyping\<lparr>textInput := None\<rparr>)"
    by simp
  from h standalone room show ?thesis by simp
qed

section \<open>The text tool\<close>

lemma down_text:
  assumes "editingShapeIndex st = None" "tool st = TEXT" "button e \<noteq> 1"
  shows "handlePointerDown ctx now e st =
     Some (st\<lparr>heap := heap st @
                [updateBoundingBox
                   \<lparr>shape_id = now, shape_color = color st, shape_stroke = 0,
                    shape_fontSize = fontSize st, bbox = None,
                    geom = Text (p_x (getPointerWorldPos e (view st)))
                                (p_y (getPointerWorldPos e (view st))) []\<rparr> ctx],
              state := \<lparr>shapes = shapes (state st) @ [length (heap st)],
                        history = take (historyIndex (state st) + 1) (history (state st))
                                    @ [shapes (state st) @ [length (heap st)]],
                        historyIndex =
                          length (take (historyIndex (state st) + 1) (history (state st)))\<rparr>,
              startPoint := Some (getPointerWorldPos e (view st)),
              isDrawing := False,
              editingShapeIndex := Some (length (shapes (state st)))\<rparr>)"
  using assms
  by (simp add: handlePointerDown_def Let_def addNewShape_def dispatch_def)

lemma change_text:
  assumes "editingShapeIndex st = Some i" "i < length (shapes (state st))"
    and "geom (heap st ! (shapes (state st) ! i)) = Text x y t"
  shows "onChangeText ctx v st =
     Some (st\<lparr>heap := (heap st)[shapes (state st) ! i :=
              updateBoundingBox ((heap st ! (shapes (state st) ! i))\<lparr>geom := Text x y v\<rparr>) ctx]\<rparr>)"
  using assms
  by (simp add: onChangeText_def Let_def lookup_def shapeType_def setText_def dispatch_def)

lemma type_text:
  assumes "editingShapeIndex st = Some i" "i < length (shapes (state st))"
    and "shapes (state st) ! i = r" "r < length (heap st)"
    and "geom (heap st ! r) = Text x y t"
  shows "typeText ctx vs st =
     Some (if vs = [] then st
           else st\<lparr>heap := (heap st)[r :=
              updateBoundingBox ((heap st ! r)\<lparr>geom := Text x y (last vs)\<rparr>) ctx]\<rparr>)"
  using assms
proof (induction vs arbitrary: st t)
  case Nil
  show ?case by simp
next
  case (Cons v vs)
  let ?sh = "updateBoundingBox ((heap st ! r)\<lparr>geom := Text x y v\<rparr>) ctx"
  let ?st1 = "st\<lparr>heap := (heap st)[r := ?sh]\<rparr>"
  have step: "onChangeText ctx v st = Some ?st1"
    using change_text [of st i x y t ctx v] Cons.prems by simp
  have "typeText ctx vs ?st1 =
     Some (if vs = [] then ?st1
           else ?st1\<lparr>heap := (heap ?st1)[r :=
              updateBoundingBox ((heap ?st1 ! r)\<lparr>geom := Text x y (last vs)\<rparr>) ctx]\<rparr>)"
    using Cons.prems by (intro Cons.IH [where t = v]) (simp_all add: updateBoundingBox_geom)
  then show ?case
    using step Cons.prems(4) by (simp add: updateBoundingBox_overwrite)
qed


text \<open>
  Claim C10.  In the standalone board a pointer-down with the text tool (no edit in
  progress, not the middle button) creates a text shape with empty content and
  dispatches ADD_SHAPE with it at once: a new snapshot, the scene plus the new
  shape, is committed before any editing, and the shape becomes the one being
  edited.  When the session then ends with empty or white-space content, whatever
  was typed in between, the shape is removed by a further commit, and one undo
  displays the snapshot of the pointer-down again: the scene with the text shape,
  whose content is blank (the object is shared with the snapshot, so it holds the
  last typed value).
\<close>

theorem text_tool_commits_empty_shape:
  fixes st :: Whiteboard and down :: CanvasEvent and typed :: "string list" and now :: string
  assumes idle: "editingShapeIndex st = None"
    and tl: "tool st = TEXT"
    and btn: "button down \<noteq> 1"
    and blank: "trim (last ([] # typed)) = []"
  defines "r \<equiv> length (heap st)"
    and "new \<equiv> (\<lambda>content.
          \<lparr>shape_id = now, shape_color = color st, shape_stroke = 0,
           shape_fontSize = fontSize st, bbox = None,
           geom = Text (p_x (getPointerWorldPos down (view st)))
                       (p_y (getPointerWorldPos down (view st))) content\<rparr>)"
  shows "(\<exists>st1. handlePointerDown ctx now down st = Some st1
        \<and> heap st1 = heap st @ [updateBoundingBox (new []) ctx]
        \<and> shapes (state st1) = shapes (state st) @ [r]
        \<and> spec_commit (history (state st)) (historyIndex (state st))
              (shapes (state st) @ [r]) (history (state st1)) (historyIndex (state st1))
        \<and> editingShapeIndex st1 = Some (length (shapes (state st))))
   \<and> (\<exists>st3 st4. textSession ctx now down typed st = Some st3
        \<and> shapes (state st3) = shapes (state st)
        \<and> editingShapeIndex st3 = None
        \<and> dispatch UNDO st3 = Some st4
        \<and> shapes (state st4) = shapes (state st) @ [r]
        \<and> heap st4 ! r = updateBoundingBox (new (last ([] # typed))) ctx
        \<and> isBlankText (heap st4 ! r))"
proof -
  let ?S = "shapes (state st)"
  let ?x = "p_x (getPointerWorldPos down (view st))"
  let ?y = "p_y (getPointerWorldPos down (view st))"
  let ?H1 = "take (historyIndex (state st) + 1) (history (state st)) @ [?S @ [r]]"
  let ?st1 = "st\<lparr>heap := heap st @ [updateBoundingBox (new []) ctx],
              state := \<lparr>shapes = ?S @ [r], history = ?H1,
                        historyIndex =
                          length (take (historyIndex (state st) + 1) (history (state st)))\<rparr>,
              startPoint := Some (getPointerWorldPos down (view st)),
              isDrawing := False,
              editingShapeIndex := Some (length ?S)\<rparr>"
  have d: "handlePointerDown ctx now down st = Some ?st1"
    unfolding r_def new_def using idle tl btn by (rule down_text)
  have first: "\<exists>st1. handlePointerDown ctx now down st = Some st1
        \<and> heap st1 = heap st @ [updateBoundingBox (new []) ctx]
        \<and> shapes (state st1) = ?S @ [r]
        \<and> spec_commit (history (state st)) (historyIndex (state st))
              (?S @ [r]) (history (state st1)) (historyIndex (state st1))
        \<and> editingShapeIndex st1 = Some (length ?S)"
    unfolding d by (simp add: spec_commit_intro)
  let ?fin = "updateBoundingBox (new (last ([] # typed))) ctx"
  let ?st2 = "?st1\<lparr>heap := heap st @ [?fin]\<rparr>"
  have t: "typeText ctx typed ?st1 = Some ?st2"
  proof -
    have "typeText ctx typed ?st1 =
      Some (if typed = [] then ?st1
           else ?st1\<lparr>heap := (heap ?st1)[r :=
              updateBoundingBox ((heap ?st1 ! r)\<lparr>geom := Text ?x ?y (last typed)\<rparr>) ctx]\<rparr>)"
      by (rule type_text [where i = "length ?S" and t = "[]"])
         (simp_all add: r_def new_def updateBoundingBox_geom)
    then show ?thesis
      by (cases "typed = []") (simp_all add: r_def new_def updateBoundingBox_overwrite)
  qed
  have b: "isBlankText ?fin"
    using blank by (simp add: isBlankText_def new_def updateBoundingBox_geom)
  let ?st3 = "?st2\<lparr>state := \<lparr>shapes = ?S, history = ?H1 @ [?S], historyIndex = length ?H1\<rparr>,
                   editingShapeIndex := None\<rparr>"
  have f: "finishEditingText (Some ctx) ?st2 = Some ?st3"
  proof -
    have "finishEditingText (Some ctx) ?st2 =
      Some (?st2\<lparr>state := \<lparr>shapes = take (length ?S) (shapes (state ?st2))
                                   @ drop (Suc (length ?S)) (shapes (state ?st2)),
                        history = take (historyIndex (state ?st2) + 1) (history (state ?st2))
                          @ [take (length ?S) (shapes (state ?st2))
                               @ drop (Suc (length ?S)) (shapes (state ?st2))],
                        historyIndex =
                          length (take (historyIndex (state ?st2) + 1) (history (state ?st2)))\<rparr>,
              editingShapeIndex := None\<rparr>)"
      using b by (intro finish_blank) (simp_all add: r_def)
    moreover have "take (historyIndex (state ?st2) + 1) (history (state ?st2)) = ?H1"
      by (simp del: take_append length_take add: take_all)
    moreover have "take (length ?S) (?S @ [r]) = ?S"
      by simp
    ultimately show ?thesis by (simp del: take_append length_take)
  qed
  have s: "textSession ctx now down typed st = Some ?st3"
    unfolding textSession_def d t option.case f ..
  let ?st4 = "?st3\<lparr>state := \<lparr>shapes = ?S @ [r], history = ?H1 @ [?S],
                             historyIndex = length ?H1 - 1\<rparr>\<rparr>"
  have u: "dispatch UNDO ?st3 = Some ?st4"
    by (simp add: dispatch_def lookup_def nth_append Let_def del: length_take take_append)
  have second: "\<exists>st3 st4. textSession ctx now down typed st = Some st3
        \<and> shapes (state st3) = ?S
        \<and> editingShapeIndex st3 = None
        \<and> dispatch UNDO st3 = Some st4
        \<and> shapes (state st4) = ?S @ [r]
        \<and> heap st4 ! r = ?fin
        \<and> isBlankText (heap st4 ! r)"
  proof (intro exI conjI)
    show "textSession ctx now down typed st = Some ?st3" by (rule s)
    show "shapes (state ?st3) = ?S" by simp
    show "editingShapeIndex ?st3 = None" by simp
    show "dispatch UNDO ?st3 = Some ?st4" by (rule u)
    show "shapes (state ?st4) = ?S @ [r]" by simp
    show "heap ?st4 ! r = ?fin" by (simp add: r_def)
    show "isBlankText (heap ?st4 ! r)" using b by (simp add: r_def)
  qed
  from first second show ?thesis ..
qed


theorem text_tool_commits_empty_shape_witness:
  "editingShapeIndex (initialWhiteboard\<lparr>tool := TEXT\<rparr>) = None
   \<and> tool (initialWhiteboard\<lparr>tool := TEXT\<rparr>) = TEXT
   \<and> button (pointerAt 10 10) \<noteq> 1
   \<and> trim (last ([] # [''a'', ''  ''])) = []
   \<and> map_option (\<lambda>s. (shapes (state s), history (state s), map geom (heap s)))
        (Option.bind
           (textSession sampleCtx ''1700000000400'' (pointerAt 10 10) [''a'', ''  '']
              (initialWhiteboard\<lparr>tool := TEXT\<rparr>))
           (dispatch UNDO))
       = Some ([0], [[], [0], []], [Text 10 10 ''  ''])"
proof -
  let ?st = "initialWhiteboard\<lparr>tool := TEXT\<rparr>"
  have h: "editingShapeIndex ?st = None" "tool ?st = TEXT" "button (pointerAt 10 10) \<noteq> 1"
    "trim (last ([] # [''a'', ''  ''])) = []"
    by (simp_all add: initialWhiteboard_def pointerAt_def trim_empty_iff isWhiteSpace_def)
  from text_tool_commits_empty_shape [OF h, where ctx = sampleCtx
      and now = "''1700000000400''", THEN conjunct2]
  obtain st3 st4
    where s: "textSession sampleCtx ''1700000000400'' (pointerAt 10 10) [''a'', ''  ''] ?st
        = Some st3"
      and u: "dispatch UNDO st3 = Some st4"
    by blast
  have "Option.bind
           (textSession sampleCtx ''1700000000400'' (pointerAt 10 10) [''a'', ''  ''] ?st)
           (dispatch UNDO)
      = Some (?st\<lparr>heap := [\<lparr>shape_id = ''1700000000400'', shape_color = ''#1e1e1e'',
                              shape_stroke = 0, shape_fontSize = 24,
                              bbox = Some \<lparr>bb_x = 10, bb_y = -14, bb_width = 48,
                                           bb_height = 24\<rparr>,
                              geom = Text 10 10 ''  ''\<rparr>],
                    state := \<lparr>shapes = [0], history = [[], [0], []], historyIndex = 1\<rparr>,
                    startPoint := Some \<lparr>p_x = 10, p_y = 10\<rparr>\<rparr>)"
    by (simp add: textSession_def handlePointerDown_def onChangeText_def finishEditingText_def
        initialWhiteboard_def initialState_def pointerAt_def getPointerWorldPos_def
        addNewShape_def dispatch_def updateBoundingBox_def sampleCtx_def isBlankText_def
        trim_def isWhiteSpace_def lookup_def filterIndexed_def shapeType_def setText_def
        Let_def)
  with h s u show ?thesis by simp
qed

end
